theory Spec2Isabelle
  imports Complex_Main "HOL-Library.Sublist"
begin

section \<open>Exceptions and expression trees\<close>

text \<open>
  Every exception the modelled code can raise is a value. \<open>KeyError\<close> carries the key
  that was looked up, the others their message.
\<close>

datatype exn =
    KeyError string
  | ValueError string
  | ModelError string

text \<open>
  Modelled from the spec: the Symbol type hierarchy (section 3 of the spec). The classes
  \<open>pybamm.Symbol\<close>, \<open>Scalar\<close>, \<open>Variable\<close>, \<open>Multiplication\<close> ... are used by the sources
  but declared outside them. A Python float that meets a Symbol in an arithmetic
  expression becomes a \<open>Scalar\<close> leaf; floats are read as real numbers.
\<close>

datatype binary_op = Addition | Subtraction | Multiplication | Division | Power

datatype unary_op = Negate | Exp

datatype spatial_kind = Grad | Div

datatype symbol =
    Parameter string
  | FunctionParameter string "symbol list"
  | Variable string "string list" "string list list"
  | StateVector nat nat
  | Scalar real
  | Time
  | BinaryOperator binary_op symbol symbol
  | UnaryOperator unary_op symbol
  | SpatialOperator spatial_kind symbol
  | Broadcast symbol "string list"
  | Concatenation "symbol list"

section \<open>Parameter functions of the Chu2020 parameter set\<close>

text \<open>
  \<open>graphite_elyte_exchange_current_density_Chu2020(c_e, c_s_surf, T)\<close>. The gas constant
  \<open>constants.R\<close> is a symbol declared outside the sources, so it is an argument here.
  Python reads \<open>E_i0 / constants.R * (1 / 298.15 - 1 / T)\<close> as
  \<open>(E_i0 / constants.R) * ((1 / 298.15) - (1 / T))\<close>; \<open>1 / 298.15\<close> is a division of two
  floats, the other operations build nodes.
\<close>

definition graphite_elyte_exchange_current_density_Chu2020 ::
  "symbol \<Rightarrow> symbol \<Rightarrow> symbol \<Rightarrow> symbol \<Rightarrow> symbol" where
  "graphite_elyte_exchange_current_density_Chu2020 R c_e c_s_surf T =
     (let i0_ref = 14.31;
          E_i0 = 30.81;
          arrhenius =
            UnaryOperator Exp
              (BinaryOperator Multiplication
                 (BinaryOperator Division (Scalar E_i0) R)
                 (BinaryOperator Subtraction
                    (Scalar (1 / 298.15))
                    (BinaryOperator Division (Scalar 1) T)))
      in BinaryOperator Multiplication (Scalar i0_ref) arrhenius)"

text \<open>\<open>electrolyte_conductivity_Chu2020(T)\<close>: \<open>sigma_e + a_k_e * (T - 298.15)\<close>.\<close>

definition electrolyte_conductivity_Chu2020 :: "symbol \<Rightarrow> symbol" where
  "electrolyte_conductivity_Chu2020 T =
     (let sigma_e = 0.022;
          a_k_e = 0.002;
          lin = BinaryOperator Multiplication (Scalar a_k_e)
                  (BinaryOperator Subtraction T (Scalar 298.15))
      in BinaryOperator Addition (Scalar sigma_e) lin)"

section \<open>The Full electrolyte diffusion submodel\<close>

text \<open>
  A model or submodel object holds four mappings of equations (section 3 of the spec;
  \<open>Full\<close> assigns \<open>self.rhs\<close>, \<open>self.initial_conditions\<close> and \<open>self.boundary_conditions\<close>).
  \<open>boundary_conditions\<close> is a dictionary from the field symbol to a dictionary from the
  side (\<open>"left"\<close>, \<open>"right"\<close>) to a pair of a value and the kind of condition, a string.
  Dictionaries are association lists in insertion order.
\<close>

type_synonym equations = "(symbol \<times> symbol) list"

type_synonym boundary = "(symbol \<times> (string \<times> symbol \<times> string) list) list"

record base_model =
  rhs :: equations
  algebraic :: equations
  initial_conditions :: equations
  boundary_conditions :: boundary

type_synonym submodel = base_model

text \<open>
  \<open>Full.set_boundary_conditions(self, variables)\<close>. \<open>variables["Electrolyte concentration"]\<close>
  raises KeyError on a missing key, before anything is assigned. The result is the
  exception raised, if any, and the object after the call.
\<close>

definition set_boundary_conditions ::
  "submodel \<Rightarrow> (string \<rightharpoonup> symbol) \<Rightarrow> exn option \<times> submodel" where
  "set_boundary_conditions self variables =
     (case variables ''Electrolyte concentration'' of
        None \<Rightarrow> (Some (KeyError ''Electrolyte concentration''), self)
      | Some c_e \<Rightarrow>
          (None,
           self\<lparr>boundary_conditions :=
             [(c_e, [(''left'', (Scalar 0, ''Neumann'')),
                     (''right'', (Scalar 0, ''Neumann''))])]\<rparr>))"

section \<open>The standard model test harness\<close>

text \<open>
  Python's truth-value testing, as \<open>x or y\<close> uses it: \<open>None\<close> is false, a dictionary is
  false exactly when it is empty, an object of a class that defines neither
  \<open>__bool__\<close> nor \<open>__len__\<close> is true. An optional argument is \<open>None\<close> or a value.
\<close>

definition dict_truthy :: "('k \<times> 'v) list \<Rightarrow> bool" where
  "dict_truthy d = (d \<noteq> [])"

definition object_truthy :: "'a \<Rightarrow> bool" where
  "object_truthy x = True"

definition falsy :: "('a \<Rightarrow> bool) \<Rightarrow> 'a option \<Rightarrow> bool" where
  "falsy truthy x = (case x of None \<Rightarrow> True | Some v \<Rightarrow> \<not> truthy v)"

definition py_or :: "('a \<Rightarrow> bool) \<Rightarrow> 'a option \<Rightarrow> 'a \<Rightarrow> 'a" where
  "py_or truthy x y = (case x of None \<Rightarrow> y | Some v \<Rightarrow> if truthy v then v else y)"

text \<open>
  Modelled from the spec: a parameter set is a mapping from a parameter name to a numeric
  constant or a callable (the class \<open>pybamm.ParameterValues\<close> is outside the sources). A
  numeric constant is a float, read as a real number or the float NaN; a callable is a
  function object, identified by its identity. As a mapping, a parameter set has the
  truth value of a dictionary.
\<close>

datatype parameter_value = Number real | NaN | Callable nat

type_synonym parameter_values = "(string \<times> parameter_value) list"

text \<open>
  Python's \<open>!=\<close> on parameter values: NaN differs from every value, itself included, two
  numbers differ when they are not the same number, two function objects when they are
  not the same object.
\<close>

definition py_ne :: "parameter_value \<Rightarrow> parameter_value \<Rightarrow> bool" where
  "py_ne v w = (v = NaN \<or> w = NaN \<or> v \<noteq> w)"

text \<open>
  The other arguments, with the shapes the tests give them: a geometry maps a domain to
  its spatial variables and their limits, \<open>submesh_types\<close> and \<open>spatial_methods\<close> map a
  domain to the name of a class, \<open>var_pts\<close> maps a spatial variable to a number of points.
  \<open>pybamm.Mesh\<close> and \<open>pybamm.Discretisation\<close> are constructors that keep their arguments.
\<close>

type_synonym geometry = "(string \<times> (string \<times> (string \<times> real) list) list) list"

type_synonym submesh_types = "(string \<times> string) list"

type_synonym var_pts = "(string \<times> nat) list"

type_synonym spatial_methods = "(string \<times> string) list"

datatype solver = Solver string

datatype mesh = Mesh geometry submesh_types var_pts

datatype discretisation = Discretisation mesh spatial_methods

record model = base_model +
  default_parameter_values :: parameter_values
  default_geometry :: geometry
  default_submesh_types :: submesh_types
  default_var_pts :: var_pts
  default_spatial_methods :: spatial_methods
  default_solver :: solver

record standard_model_test =
  model :: model
  parameter_values :: parameter_values
  solver :: solver
  disc :: discretisation
  param :: "parameter_values option"

text \<open>
  \<open>StandardModelTest.__init__\<close>. \<open>process_geometry\<close> is a method of the parameter set, outside
  the sources: it is an argument here, given the parameter set and the geometry and
  returning the geometry it has processed, or the exception it raised. The attribute
  \<open>self.param\<close> does not exist before \<open>test_update_parameters\<close> sets it.
\<close>

definition StandardModelTest_init ::
  "(parameter_values \<Rightarrow> geometry \<Rightarrow> exn + geometry) \<Rightarrow> model \<Rightarrow>
   parameter_values option \<Rightarrow> geometry option \<Rightarrow> submesh_types option \<Rightarrow>
   var_pts option \<Rightarrow> spatial_methods option \<Rightarrow> solver option \<Rightarrow>
   exn + standard_model_test" where
  "StandardModelTest_init process_geometry m parameter_values_arg geometry_arg
       submesh_types_arg var_pts_arg spatial_methods_arg solver_arg =
     (let self_parameter_values =
            py_or dict_truthy parameter_values_arg (default_parameter_values m);
          geometry1 = py_or dict_truthy geometry_arg (default_geometry m);
          submesh_types1 = py_or dict_truthy submesh_types_arg (default_submesh_types m);
          var_pts1 = py_or dict_truthy var_pts_arg (default_var_pts m);
          spatial_methods1 =
            py_or dict_truthy spatial_methods_arg (default_spatial_methods m);
          self_solver = py_or object_truthy solver_arg (default_solver m)
      in case process_geometry self_parameter_values geometry1 of
           Inl e \<Rightarrow> Inl e
         | Inr geometry2 \<Rightarrow>
             Inr \<lparr>model = m,
                  parameter_values = self_parameter_values,
                  solver = self_solver,
                  disc = Discretisation (Mesh geometry2 submesh_types1 var_pts1)
                           spatial_methods1,
                  param = None\<rparr>)"

text \<open>
  \<open>StandardModelTest.test_update_parameters(self, param)\<close>. The list comprehension is
  evaluated in full before \<open>any\<close> looks at it: for each of the three names, \<open>length in
  param.keys()\<close> is tested first, and only when it holds are \<open>param[length]\<close> and
  \<open>self.parameter_values[length]\<close> read, the latter raising KeyError on a missing key.
\<close>

definition geometry_lengths :: "string list" where
  "geometry_lengths =
     [''Negative electrode width [m]'', ''Separator width [m]'',
      ''Positive electrode width [m]'']"

definition getitem :: "parameter_values \<Rightarrow> string \<Rightarrow> exn + parameter_value" where
  "getitem d k = (case map_of d k of None \<Rightarrow> Inl (KeyError k) | Some v \<Rightarrow> Inr v)"

definition length_changed ::
  "parameter_values \<Rightarrow> parameter_values \<Rightarrow> string \<Rightarrow> exn + bool" where
  "length_changed new_param old_param l =
     (if l \<in> set (map fst new_param) then
        (case getitem new_param l of
           Inl e \<Rightarrow> Inl e
         | Inr v \<Rightarrow>
             (case getitem old_param l of
                Inl e \<Rightarrow> Inl e
              | Inr w \<Rightarrow> Inr (py_ne v w)))
      else Inr False)"

fun lengths_changed ::
  "parameter_values \<Rightarrow> parameter_values \<Rightarrow> string list \<Rightarrow> exn + bool list" where
  "lengths_changed new_param old_param [] = Inr []"
| "lengths_changed new_param old_param (l # ls) =
     (case length_changed new_param old_param l of
        Inl e \<Rightarrow> Inl e
      | Inr b \<Rightarrow>
          (case lengths_changed new_param old_param ls of
             Inl e \<Rightarrow> Inl e
           | Inr bs \<Rightarrow> Inr (b # bs)))"

text \<open>
  \<open>param.update_model(self.model, self.disc)\<close> and \<open>self.model.check_well_posedness()\<close> are
  outside the sources and are arguments here. \<open>update_model\<close> changes the model in place,
  so it returns the model it leaves behind together with the exception it raised, if
  any; \<open>check_well_posedness\<close> only reads the model.
\<close>

definition test_update_parameters ::
  "(parameter_values \<Rightarrow> model \<Rightarrow> discretisation \<Rightarrow> exn option \<times> model) \<Rightarrow>
   (model \<Rightarrow> exn option) \<Rightarrow>
   standard_model_test \<Rightarrow> parameter_values \<Rightarrow> exn option \<times> standard_model_test" where
  "test_update_parameters update_model check_well_posedness self new_param =
     (case lengths_changed new_param (parameter_values self) geometry_lengths of
        Inl e \<Rightarrow> (Some e, self)
      | Inr flags \<Rightarrow>
          if list_ex (\<lambda>b. b) flags then
            (Some (ValueError
               ''geometry has changed, the orginal model needs to be re-discretised''),
             self)
          else
            (let self1 = self\<lparr>param := Some new_param\<rparr>;
                 (raised, model1) = update_model new_param (model self1) (disc self1);
                 self2 = self1\<lparr>model := model1\<rparr>
             in case raised of
                  Some e \<Rightarrow> (Some e, self2)
                | None \<Rightarrow> (check_well_posedness model1, self2)))"

text \<open>
  Whether the new parameter set carries the name \<open>l\<close> with a value that \<open>!=\<close> tells from
  the value the original set has for it: the condition of the list comprehension where
  both lookups succeed.
\<close>

definition width_differs :: "parameter_values \<Rightarrow> parameter_values \<Rightarrow> string \<Rightarrow> bool" where
  "width_differs new_param old_param l =
     (case map_of new_param l of
        None \<Rightarrow> False
      | Some v \<Rightarrow> (case map_of old_param l of None \<Rightarrow> False | Some w \<Rightarrow> py_ne v w))"

text \<open>
  What the harness relies on in \<open>update_model\<close>: called on a model that passes
  \<open>check_well_posedness\<close>, it raises nothing and leaves a model that passes it.
\<close>

definition keeps_well_posed ::
  "(parameter_values \<Rightarrow> model \<Rightarrow> discretisation \<Rightarrow> exn option \<times> model) \<Rightarrow>
   (model \<Rightarrow> exn option) \<Rightarrow> bool" where
  "keeps_well_posed update_model check_well_posedness =
     (\<forall>p m d. check_well_posedness m = None \<longrightarrow>
        fst (update_model p m d) = None \<and> check_well_posedness (snd (update_model p m d)) = None)"

text \<open>
  A model with one default of each kind and a test object built on it, as inputs for the
  evaluations below.
\<close>

definition example_model :: model where
  "example_model =
     \<lparr>rhs = [], algebraic = [], initial_conditions = [], boundary_conditions = [],
      default_parameter_values = [(''Negative electrode width [m]'', Number 1)],
      default_geometry = [(''negative electrode'', [(''x_n'', [(''min'', 0), (''max'', 1)])])],
      default_submesh_types = [(''negative electrode'', ''Uniform1DSubMesh'')],
      default_var_pts = [(''x_n'', 20)],
      default_spatial_methods = [(''negative electrode'', ''FiniteVolume'')],
      default_solver = Solver ''default''\<rparr>"

definition example_test :: standard_model_test where
  "example_test =
     \<lparr>model = example_model,
      parameter_values = [(''Negative electrode width [m]'', Number 1)],
      solver = Solver ''default'',
      disc =
        Discretisation
          (Mesh [(''negative electrode'', [(''x_n'', [(''min'', 0), (''max'', 1)])])]
             [(''negative electrode'', ''Uniform1DSubMesh'')] [(''x_n'', 20)])
          [(''negative electrode'', ''FiniteVolume'')],
      param = None\<rparr>"

text \<open>A well-posedness check that looks at one field, as an input for the evaluations below.\<close>

definition example_check :: "model \<Rightarrow> exn option" where
  "example_check m =
     (if default_parameter_values m = [] then Some (ModelError ''no parameters'') else None)"

section \<open>Exception messages\<close>

text \<open>The text an exception carries, and whether a raised exception mentions a word.\<close>

fun message :: "exn \<Rightarrow> string" where
  "message (KeyError k) = k"
| "message (ValueError s) = s"
| "message (ModelError s) = s"

fun mentions :: "string \<Rightarrow> exn option \<Rightarrow> bool" where
  "mentions w (Some e) = sublist w (message e)"
| "mentions w None = False"

fun is_ModelError :: "exn option \<Rightarrow> bool" where
  "is_ModelError (Some (ModelError s)) = True"
| "is_ModelError r = False"

section \<open>The allocation of the state vector\<close>

text \<open>
  Modelled from the spec: \<open>Symbol.pre_order\<close> (section 4.1), every node of the subtree,
  parent before children. The method is outside the sources.
\<close>

fun pre_order :: "symbol \<Rightarrow> symbol list" where
  "pre_order (FunctionParameter f args) =
     FunctionParameter f args # concat (map pre_order args)"
| "pre_order (BinaryOperator b l r) = BinaryOperator b l r # pre_order l @ pre_order r"
| "pre_order (UnaryOperator u c) = UnaryOperator u c # pre_order c"
| "pre_order (SpatialOperator k c) = SpatialOperator k c # pre_order c"
| "pre_order (Broadcast c d) = Broadcast c d # pre_order c"
| "pre_order (Concatenation cs) = Concatenation cs # concat (map pre_order cs)"
| "pre_order s = [s]"

text \<open>\<open>isinstance(x, pybamm.Variable)\<close>.\<close>

fun is_Variable :: "symbol \<Rightarrow> bool" where
  "is_Variable (Variable n d a) = True"
| "is_Variable s = False"

text \<open>The distinct elements of a list, in the order of their first occurrence.\<close>

definition first_seen :: "'a list \<Rightarrow> 'a list" where
  "first_seen xs = rev (remdups (rev xs))"

text \<open>
  Modelled from the spec: the pass of \<open>Discretisation.process_model\<close> over all equations
  of a model that meets each distinct Variable, in the order of first encounter (sections
  3 and 4.4). The equations are read in the order the spec lists the four mappings, keys
  before values. \<open>Discretisation\<close> is outside the sources.
\<close>

definition equation_nodes :: "equations \<Rightarrow> symbol list" where
  "equation_nodes eqs = concat (map (\<lambda>(k, e). pre_order k @ pre_order e) eqs)"

definition boundary_nodes :: "boundary \<Rightarrow> symbol list" where
  "boundary_nodes bcs =
     concat (map (\<lambda>(k, sides). pre_order k @ concat (map (\<lambda>(side, e, kind). pre_order e) sides)) bcs)"

definition model_variables :: "model \<Rightarrow> symbol list" where
  "model_variables m =
     first_seen (filter is_Variable
       (equation_nodes (rhs m) @ equation_nodes (algebraic m) @
        equation_nodes (initial_conditions m) @ boundary_nodes (boundary_conditions m)))"

text \<open>
  Modelled from the spec: the discretised size of a Variable, the node count of its
  primary domain times the node count of every auxiliary domain (section 4.4 (a)). The
  mesh gives the node count of a domain.
\<close>

fun variable_size :: "(string list \<Rightarrow> nat) \<Rightarrow> symbol \<Rightarrow> nat" where
  "variable_size npts (Variable n d aux) = npts d * prod_list (map npts aux)"
| "variable_size npts s = 0"

text \<open>
  Modelled from the spec: the allocation table of \<open>Discretisation.process_model\<close>. Each
  Variable gets the contiguous index range \<open>[first, last)\<close> that starts where the range of
  the Variable before it ends; the first range starts at 0 (sections 3 and 4.4 (a)). The
  rewriting of the equations with these ranges and with the operators of the spatial
  methods is not modelled.
\<close>

fun allocate :: "(symbol \<Rightarrow> nat) \<Rightarrow> nat \<Rightarrow> symbol list \<Rightarrow> (symbol \<times> nat \<times> nat) list" where
  "allocate size_of first [] = []"
| "allocate size_of first (v # vs) =
     (v, first, first + size_of v) # allocate size_of (first + size_of v) vs"

definition y_slices :: "(string list \<Rightarrow> nat) \<Rightarrow> model \<Rightarrow> (symbol \<times> nat \<times> nat) list" where
  "y_slices npts m = allocate (variable_size npts) 0 (model_variables m)"

text \<open>
  Modelled from the spec: the rule on StateVector ranges of
  \<open>check_well_posedness(post_discretisation=True)\<close> (section 4.4): the ranges must tile
  \<open>[0, total_state_size)\<close> with no gaps or overlaps, where the total is the sum of the sizes
  of the ranges. Two ranges that share an index fail with "duplicate state", an index
  below the total that no range holds fails with "Missing variable".
\<close>

definition overlapping :: "nat \<times> nat \<Rightarrow> nat \<times> nat \<Rightarrow> bool" where
  "overlapping r s = (max (fst r) (fst s) < min (snd r) (snd s))"

fun has_overlap :: "(nat \<times> nat) list \<Rightarrow> bool" where
  "has_overlap [] = False"
| "has_overlap (r # rs) = (list_ex (overlapping r) rs \<or> has_overlap rs)"

definition covered :: "(nat \<times> nat) list \<Rightarrow> nat \<Rightarrow> bool" where
  "covered rs i = list_ex (\<lambda>r. fst r \<le> i \<and> i < snd r) rs"

definition total_state_size :: "(nat \<times> nat) list \<Rightarrow> nat" where
  "total_state_size rs = sum_list (map (\<lambda>r. snd r - fst r) rs)"

definition check_state_vector_ranges :: "(nat \<times> nat) list \<Rightarrow> exn option" where
  "check_state_vector_ranges rs =
     (if has_overlap rs then Some (ModelError ''duplicate state'')
      else if \<not> list_all (covered rs) [0..<total_state_size rs]
        then Some (ModelError ''Missing variable'')
      else None)"

text \<open>
  The indices of a range, and pairwise disjointness of a list of ranges, as sets: the
  property in the words of the spec, against which the executable check is compared.
\<close>

definition range_set :: "nat \<times> nat \<Rightarrow> nat set" where
  "range_set r = {fst r..<snd r}"

fun disjoint_ranges :: "(nat \<times> nat) list \<Rightarrow> bool" where
  "disjoint_ranges [] = True"
| "disjoint_ranges (r # rs) =
     ((\<forall>s\<in>set rs. range_set r \<inter> range_set s = {}) \<and> disjoint_ranges rs)"

text \<open>A model with two variables and a mesh, as inputs for the evaluations below.\<close>

definition example_particle_model :: model where
  "example_particle_model =
     \<lparr>rhs =
        [(Variable ''c_s_n'' [''negative particle''] [[''negative electrode'']],
          SpatialOperator Div
            (BinaryOperator Multiplication (Parameter ''D_n'')
               (SpatialOperator Grad
                  (Variable ''c_s_n'' [''negative particle''] [[''negative electrode'']]))))],
      algebraic =
        [(Variable ''phi_e'' [''separator''] [],
          BinaryOperator Subtraction (Variable ''phi_e'' [''separator''] [])
            (Variable ''c_s_n'' [''negative particle''] [[''negative electrode'']]))],
      initial_conditions =
        [(Variable ''c_s_n'' [''negative particle''] [[''negative electrode'']], Scalar 1)],
      boundary_conditions = [],
      default_parameter_values = [(''D_n'', Number 1)],
      default_geometry = [],
      default_submesh_types = [],
      default_var_pts = [],
      default_spatial_methods = [],
      default_solver = Solver ''default''\<rparr>"

definition example_npts :: "string list \<Rightarrow> nat" where
  "example_npts d =
     (if d = [''negative particle''] then 3 else if d = [''negative electrode''] then 2 else 4)"

section \<open>The life cycle of a battery model\<close>

text \<open>
  Modelled from the spec: the states of a model (section 4.5) and \<open>build_model\<close>, which
  fails with \<open>ModelError("Model already built")\<close> on a model that is built already and
  otherwise lets the submodels populate the equations and marks the model built. The
  class \<open>BaseBatteryModel\<close> is outside the sources; what the submodels do is an argument
  here, returning the model they leave and the exception they raised, if any.
\<close>

datatype lifecycle = Unbuilt | Built | ParametersProcessed | Discretised

record battery_model = model +
  lifecycle_state :: lifecycle

definition build_model ::
  "(battery_model \<Rightarrow> exn option \<times> battery_model) \<Rightarrow> battery_model \<Rightarrow>
   exn option \<times> battery_model" where
  "build_model build_submodels m =
     (if lifecycle_state m \<noteq> Unbuilt then (Some (ModelError ''Model already built''), m)
      else
        (case build_submodels m of
           (Some e, m1) \<Rightarrow> (Some e, m1)
         | (None, m1) \<Rightarrow> (None, m1\<lparr>lifecycle_state := Built\<rparr>)))"

definition example_battery_model :: "lifecycle \<Rightarrow> battery_model" where
  "example_battery_model s =
     \<lparr>rhs = [(Variable ''c'' [''negative particle''] [], Scalar 1)],
      algebraic = [], initial_conditions = [], boundary_conditions = [],
      default_parameter_values = [],
      default_geometry = [],
      default_submesh_types = [],
      default_var_pts = [],
      default_spatial_methods = [],
      default_solver = Solver ''default'',
      lifecycle_state = s\<rparr>"

section \<open>Evaluation with a cache of known values\<close>

text \<open>
  Modelled from the spec: \<open>Symbol.evaluate(t, y)\<close> (section 4.1), which evaluates the
  children of a node from left to right and applies the node's operator semantics to
  their values; the first exception ends the evaluation. The method is outside the
  sources. The operator semantics of a node is an argument: given the node, the time,
  the state and the values of the children it returns an array or raises.
\<close>

type_synonym array = "real list"

type_synonym operator_semantics = "symbol \<Rightarrow> real \<Rightarrow> array \<Rightarrow> array list \<Rightarrow> exn + array"

fun evaluate :: "operator_semantics \<Rightarrow> real \<Rightarrow> array \<Rightarrow> symbol \<Rightarrow> exn + array"
  and evaluate_children ::
    "operator_semantics \<Rightarrow> real \<Rightarrow> array \<Rightarrow> symbol list \<Rightarrow> exn + array list" where
  "evaluate sem t y (FunctionParameter f args) =
     (case evaluate_children sem t y args of
        Inl e \<Rightarrow> Inl e
      | Inr vs \<Rightarrow> sem (FunctionParameter f args) t y vs)"
| "evaluate sem t y (BinaryOperator b l r) =
     (case evaluate sem t y l of
        Inl e \<Rightarrow> Inl e
      | Inr vl \<Rightarrow>
          (case evaluate sem t y r of
             Inl e \<Rightarrow> Inl e
           | Inr vr \<Rightarrow> sem (BinaryOperator b l r) t y [vl, vr]))"
| "evaluate sem t y (UnaryOperator u c) =
     (case evaluate sem t y c of
        Inl e \<Rightarrow> Inl e
      | Inr v \<Rightarrow> sem (UnaryOperator u c) t y [v])"
| "evaluate sem t y (SpatialOperator k c) =
     (case evaluate sem t y c of
        Inl e \<Rightarrow> Inl e
      | Inr v \<Rightarrow> sem (SpatialOperator k c) t y [v])"
| "evaluate sem t y (Broadcast c d) =
     (case evaluate sem t y c of
        Inl e \<Rightarrow> Inl e
      | Inr v \<Rightarrow> sem (Broadcast c d) t y [v])"
| "evaluate sem t y (Concatenation cs) =
     (case evaluate_children sem t y cs of
        Inl e \<Rightarrow> Inl e
      | Inr vs \<Rightarrow> sem (Concatenation cs) t y vs)"
| "evaluate sem t y (Parameter n) = sem (Parameter n) t y []"
| "evaluate sem t y (Variable n d a) = sem (Variable n d a) t y []"
| "evaluate sem t y (StateVector i j) = sem (StateVector i j) t y []"
| "evaluate sem t y (Scalar v) = sem (Scalar v) t y []"
| "evaluate sem t y Time = sem Time t y []"
| "evaluate_children sem t y [] = Inr []"
| "evaluate_children sem t y (c # cs) =
     (case evaluate sem t y c of
        Inl e \<Rightarrow> Inl e
      | Inr v \<Rightarrow>
          (case evaluate_children sem t y cs of
             Inl e \<Rightarrow> Inl e
           | Inr vs \<Rightarrow> Inr (v # vs)))"

text \<open>
  Modelled from the spec: \<open>Symbol.evaluate(t, y, known_evals)\<close> (section 4.1). The cache
  maps the structural id of a node, here the node itself, to the value computed for it.
  A node found in the cache returns the cached value and the cache as it is; any other
  node is evaluated from its children, with the cache threaded through them, and its
  value is stored. The result is the value together with the cache.
\<close>

type_synonym known_evals = "symbol \<rightharpoonup> array"

definition store :: "symbol \<Rightarrow> known_evals \<Rightarrow> exn + array \<Rightarrow> exn + array \<times> known_evals" where
  "store s known r = (case r of Inl e \<Rightarrow> Inl e | Inr v \<Rightarrow> Inr (v, known(s \<mapsto> v)))"

fun evaluate_known ::
    "operator_semantics \<Rightarrow> real \<Rightarrow> array \<Rightarrow> known_evals \<Rightarrow> symbol \<Rightarrow> exn + array \<times> known_evals"
  and evaluate_known_children ::
    "operator_semantics \<Rightarrow> real \<Rightarrow> array \<Rightarrow> known_evals \<Rightarrow> symbol list \<Rightarrow>
     exn + array list \<times> known_evals" where
  "evaluate_known sem t y known (FunctionParameter f args) =
     (case known (FunctionParameter f args) of
        Some v \<Rightarrow> Inr (v, known)
      | None \<Rightarrow>
          (case evaluate_known_children sem t y known args of
             Inl e \<Rightarrow> Inl e
           | Inr (vs, known1) \<Rightarrow>
               store (FunctionParameter f args) known1 (sem (FunctionParameter f args) t y vs)))"
| "evaluate_known sem t y known (BinaryOperator b l r) =
     (case known (BinaryOperator b l r) of
        Some v \<Rightarrow> Inr (v, known)
      | None \<Rightarrow>
          (case evaluate_known sem t y known l of
             Inl e \<Rightarrow> Inl e
           | Inr (vl, known1) \<Rightarrow>
               (case evaluate_known sem t y known1 r of
                  Inl e \<Rightarrow> Inl e
                | Inr (vr, known2) \<Rightarrow>
                    store (BinaryOperator b l r) known2
                      (sem (BinaryOperator b l r) t y [vl, vr]))))"
| "evaluate_known sem t y known (UnaryOperator u c) =
     (case known (UnaryOperator u c) of
        Some v \<Rightarrow> Inr (v, known)
      | None \<Rightarrow>
          (case evaluate_known sem t y known c of
             Inl e \<Rightarrow> Inl e
           | Inr (v, known1) \<Rightarrow>
               store (UnaryOperator u c) known1 (sem (UnaryOperator u c) t y [v])))"
| "evaluate_known sem t y known (SpatialOperator k c) =
     (case known (SpatialOperator k c) of
        Some v \<Rightarrow> Inr (v, known)
      | None \<Rightarrow>
          (case evaluate_known sem t y known c of
             Inl e \<Rightarrow> Inl e
           | Inr (v, known1) \<Rightarrow>
               store (SpatialOperator k c) known1 (sem (SpatialOperator k c) t y [v])))"
| "evaluate_known sem t y known (Broadcast c d) =
     (case known (Broadcast c d) of
        Some v \<Rightarrow> Inr (v, known)
      | None \<Rightarrow>
          (case evaluate_known sem t y known c of
             Inl e \<Rightarrow> Inl e
           | Inr (v, known1) \<Rightarrow>
               store (Broadcast c d) known1 (sem (Broadcast c d) t y [v])))"
| "evaluate_known sem t y known (Concatenation cs) =
     (case known (Concatenation cs) of
        Some v \<Rightarrow> Inr (v, known)
      | None \<Rightarrow>
          (case evaluate_known_children sem t y known cs of
             Inl e \<Rightarrow> Inl e
           | Inr (vs, known1) \<Rightarrow>
               store (Concatenation cs) known1 (sem (Concatenation cs) t y vs)))"
| "evaluate_known sem t y known (Parameter n) =
     (case known (Parameter n) of
        Some v \<Rightarrow> Inr (v, known)
      | None \<Rightarrow> store (Parameter n) known (sem (Parameter n) t y []))"
| "evaluate_known sem t y known (Variable n d a) =
     (case known (Variable n d a) of
        Some v \<Rightarrow> Inr (v, known)
      | None \<Rightarrow> store (Variable n d a) known (sem (Variable n d a) t y []))"
| "evaluate_known sem t y known (StateVector i j) =
     (case known (StateVector i j) of
        Some v \<Rightarrow> Inr (v, known)
      | None \<Rightarrow> store (StateVector i j) known (sem (StateVector i j) t y []))"
| "evaluate_known sem t y known (Scalar v) =
     (case known (Scalar v) of
        Some w \<Rightarrow> Inr (w, known)
      | None \<Rightarrow> store (Scalar v) known (sem (Scalar v) t y []))"
| "evaluate_known sem t y known Time =
     (case known Time of
        Some v \<Rightarrow> Inr (v, known)
      | None \<Rightarrow> store Time known (sem Time t y []))"
| "evaluate_known_children sem t y known [] = Inr ([], known)"
| "evaluate_known_children sem t y known (c # cs) =
     (case evaluate_known sem t y known c of
        Inl e \<Rightarrow> Inl e
      | Inr (v, known1) \<Rightarrow>
          (case evaluate_known_children sem t y known1 cs of
             Inl e \<Rightarrow> Inl e
           | Inr (vs, known2) \<Rightarrow> Inr (v # vs, known2)))"

text \<open>The value component of a result, with an exception passed through.\<close>

definition value_of :: "exn + 'a \<times> known_evals \<Rightarrow> exn + 'a" where
  "value_of r = (case r of Inl e \<Rightarrow> Inl e | Inr (v, known) \<Rightarrow> Inr v)"

text \<open>
  A cache is consistent when every value it holds is the one plain evaluation gives, and
  a result of cached evaluation is sound against a result of plain evaluation when both
  raise the same exception or both return the same value, the cache returned being
  consistent.
\<close>

definition consistent :: "operator_semantics \<Rightarrow> real \<Rightarrow> array \<Rightarrow> known_evals \<Rightarrow> bool" where
  "consistent sem t y known = (\<forall>s v. known s = Some v \<longrightarrow> evaluate sem t y s = Inr v)"

definition sound ::
  "operator_semantics \<Rightarrow> real \<Rightarrow> array \<Rightarrow> exn + 'a \<times> known_evals \<Rightarrow> exn + 'a \<Rightarrow> bool" where
  "sound sem t y r r0 =
     (case r of Inl e \<Rightarrow> r0 = Inl e | Inr (v, known) \<Rightarrow> r0 = Inr v \<and> consistent sem t y known)"

text \<open>
  The nodes that cached evaluation reaches from a node without passing through a node of
  the cache: the node itself unless it is cached, and what is reached from its children.
  Nothing is reached at or below a cached node.
\<close>

fun reached :: "known_evals \<Rightarrow> symbol \<Rightarrow> symbol set" where
  "reached known (FunctionParameter f args) =
     (if known (FunctionParameter f args) \<noteq> None then {}
      else insert (FunctionParameter f args) (\<Union> (set (map (reached known) args))))"
| "reached known (BinaryOperator b l r) =
     (if known (BinaryOperator b l r) \<noteq> None then {}
      else insert (BinaryOperator b l r) (reached known l \<union> reached known r))"
| "reached known (UnaryOperator u c) =
     (if known (UnaryOperator u c) \<noteq> None then {}
      else insert (UnaryOperator u c) (reached known c))"
| "reached known (SpatialOperator k c) =
     (if known (SpatialOperator k c) \<noteq> None then {}
      else insert (SpatialOperator k c) (reached known c))"
| "reached known (Broadcast c d) =
     (if known (Broadcast c d) \<noteq> None then {}
      else insert (Broadcast c d) (reached known c))"
| "reached known (Concatenation cs) =
     (if known (Concatenation cs) \<noteq> None then {}
      else insert (Concatenation cs) (\<Union> (set (map (reached known) cs))))"
| "reached known s = (if known s \<noteq> None then {} else {s})"

text \<open>
  A cache is closed under subtrees when with a node it holds every node of the subtree.
\<close>

definition subterm_closed :: "known_evals \<Rightarrow> bool" where
  "subterm_closed known = (\<forall>s\<in>dom known. set (pre_order s) \<subseteq> dom known)"

text \<open>An operator semantics on one-element arrays, as an input for the evaluation below.\<close>

definition scalar_semantics :: operator_semantics where
  "scalar_semantics s t y vs =
     (case s of
        Scalar v \<Rightarrow> Inr [v]
      | Time \<Rightarrow> Inr [t]
      | StateVector i j \<Rightarrow> Inr (take (j - i) (drop i y))
      | BinaryOperator b l r \<Rightarrow>
          (case vs of
             [[a], [c]] \<Rightarrow>
               (case b of
                  Addition \<Rightarrow> Inr [a + c]
                | Subtraction \<Rightarrow> Inr [a - c]
                | Multiplication \<Rightarrow> Inr [a * c]
                | _ \<Rightarrow> Inl (ValueError ''not a scalar operation''))
           | _ \<Rightarrow> Inl (ValueError ''not a scalar operation''))
      | _ \<Rightarrow> Inl (ValueError ''not a scalar operation''))"

text \<open>
  The same semantics, but raising whenever a StateVector is evaluated.
\<close>

definition raising_on_state_vector :: operator_semantics where
  "raising_on_state_vector s t y vs =
     (case s of
        StateVector i j \<Rightarrow> Inl (ValueError ''state vector evaluated'')
      | _ \<Rightarrow> scalar_semantics s t y vs)"

section \<open>Results\<close>

text \<open>
  C8. The exchange-current density of the Chu2020 graphite anode does not depend on its
  first two arguments: two calls with the same temperature return the same tree, which is
  \<open>14.31 * exp((30.81 / R) * (1 / 298.15 - 1 / T))\<close>.
\<close>

theorem exchange_current_density_depends_only_on_T:
  "graphite_elyte_exchange_current_density_Chu2020 R c_e c_s_surf T =
     graphite_elyte_exchange_current_density_Chu2020 R c_e' c_s_surf' T
   \<and> graphite_elyte_exchange_current_density_Chu2020 R c_e c_s_surf T =
     BinaryOperator Multiplication (Scalar 14.31)
       (UnaryOperator Exp
          (BinaryOperator Multiplication
             (BinaryOperator Division (Scalar 30.81) R)
             (BinaryOperator Subtraction (Scalar (1 / 298.15))
                (BinaryOperator Division (Scalar 1) T))))"
  by (simp add: graphite_elyte_exchange_current_density_Chu2020_def)

lemma set_boundary_conditions_present:
  "variables ''Electrolyte concentration'' = Some c_e \<Longrightarrow>
   set_boundary_conditions self variables =
     (None,
      self\<lparr>boundary_conditions :=
        [(c_e, [(''left'', (Scalar 0, ''Neumann'')), (''right'', (Scalar 0, ''Neumann''))])]\<rparr>)"
  by (simp add: set_boundary_conditions_def)

text \<open>
  C10 (as amended). On every variables mapping that has an entry
  \<open>"Electrolyte concentration"\<close>, \<open>Full.set_boundary_conditions\<close> raises nothing and leaves
  exactly one boundary-condition entry, keyed by that entry's symbol, whose left and
  right sides are both \<open>(Scalar(0), "Neumann")\<close>: no side is a Dirichlet condition, and the
  other equations of the submodel are untouched. On a mapping without the entry the call
  raises KeyError and changes nothing.
\<close>

theorem set_boundary_conditions_zero_flux:
  "(variables ''Electrolyte concentration'' = Some c_e \<longrightarrow>
      fst (set_boundary_conditions self variables) = None
      \<and> boundary_conditions (snd (set_boundary_conditions self variables)) =
          [(c_e, [(''left'', (Scalar 0, ''Neumann'')), (''right'', (Scalar 0, ''Neumann''))])]
      \<and> length (boundary_conditions (snd (set_boundary_conditions self variables))) = 1
      \<and> (\<forall>key sides side v kind.
            (key, sides) \<in> set (boundary_conditions (snd (set_boundary_conditions self variables)))
            \<and> (side, v, kind) \<in> set sides
            \<longrightarrow> key = c_e \<and> v = Scalar 0 \<and> kind = ''Neumann'' \<and> kind \<noteq> ''Dirichlet'')
      \<and> rhs (snd (set_boundary_conditions self variables)) = rhs self
      \<and> algebraic (snd (set_boundary_conditions self variables)) = algebraic self
      \<and> initial_conditions (snd (set_boundary_conditions self variables)) =
          initial_conditions self)
   \<and> (variables ''Electrolyte concentration'' = None \<longrightarrow>
        set_boundary_conditions self variables =
          (Some (KeyError ''Electrolyte concentration''), self))"
proof (intro conjI impI)
  assume "variables ''Electrolyte concentration'' = None"
  then show "set_boundary_conditions self variables =
      (Some (KeyError ''Electrolyte concentration''), self)"
    by (simp add: set_boundary_conditions_def)
next
  assume h: "variables ''Electrolyte concentration'' = Some c_e"
  note e = set_boundary_conditions_present [of variables c_e self, OF h]
  show "fst (set_boundary_conditions self variables) = None"
    by (simp add: e)
  show "boundary_conditions (snd (set_boundary_conditions self variables)) =
      [(c_e, [(''left'', (Scalar 0, ''Neumann'')), (''right'', (Scalar 0, ''Neumann''))])]"
    by (simp add: e)
  show "length (boundary_conditions (snd (set_boundary_conditions self variables))) = 1"
    by (simp add: e)
  show "rhs (snd (set_boundary_conditions self variables)) = rhs self"
    by (simp add: e)
  show "algebraic (snd (set_boundary_conditions self variables)) = algebraic self"
    by (simp add: e)
  show "initial_conditions (snd (set_boundary_conditions self variables)) =
      initial_conditions self"
    by (simp add: e)
  show "\<forall>key sides side v kind.
      (key, sides) \<in> set (boundary_conditions (snd (set_boundary_conditions self variables)))
      \<and> (side, v, kind) \<in> set sides
      \<longrightarrow> key = c_e \<and> v = Scalar 0 \<and> kind = ''Neumann'' \<and> kind \<noteq> ''Dirichlet''"
    unfolding e by auto
qed

theorem set_boundary_conditions_zero_flux_witness:
  "fst (set_boundary_conditions
          \<lparr>rhs = [], algebraic = [], initial_conditions = [],
           boundary_conditions = [(Time, [(''left'', (Scalar 1, ''Dirichlet''))])]\<rparr>
          [''Electrolyte concentration'' \<mapsto>
             Variable ''Electrolyte concentration'' [''separator''] []]) = None
   \<and> boundary_conditions (snd (set_boundary_conditions
          \<lparr>rhs = [], algebraic = [], initial_conditions = [],
           boundary_conditions = [(Time, [(''left'', (Scalar 1, ''Dirichlet''))])]\<rparr>
          [''Electrolyte concentration'' \<mapsto>
             Variable ''Electrolyte concentration'' [''separator''] []])) =
       [(Variable ''Electrolyte concentration'' [''separator''] [],
         [(''left'', (Scalar 0, ''Neumann'')), (''right'', (Scalar 0, ''Neumann''))])]
   \<and> set_boundary_conditions
          \<lparr>rhs = [], algebraic = [], initial_conditions = [],
           boundary_conditions = [(Time, [(''left'', (Scalar 1, ''Dirichlet''))])]\<rparr>
          [''Porosity'' \<mapsto> Scalar 1] =
       (Some (KeyError ''Electrolyte concentration''),
        \<lparr>rhs = [], algebraic = [], initial_conditions = [],
         boundary_conditions = [(Time, [(''left'', (Scalar 1, ''Dirichlet''))])]\<rparr>)"
proof -
  let ?c = "Variable ''Electrolyte concentration'' [''separator''] []"
  let ?V = "[''Electrolyte concentration'' \<mapsto> ?c]"
  let ?W = "[''Porosity'' \<mapsto> Scalar 1]"
  let ?S = "\<lparr>rhs = [], algebraic = [], initial_conditions = [],
      boundary_conditions = [(Time, [(''left'', (Scalar 1, ''Dirichlet''))])]\<rparr>"
  have present: "?V ''Electrolyte concentration'' = Some ?c"
    by simp
  have missing: "?W ''Electrolyte concentration'' = None"
    by simp
  from set_boundary_conditions_zero_flux [of ?V ?c ?S, THEN conjunct1, THEN mp, OF present]
    set_boundary_conditions_zero_flux [of ?W ?c ?S, THEN conjunct2, THEN mp, OF missing]
  show ?thesis
    by blast
qed

theorem set_boundary_conditions_missing_key_counterexample:
  "fst (set_boundary_conditions
          \<lparr>rhs = [], algebraic = [], initial_conditions = [], boundary_conditions = []\<rparr>
          Map.empty) = Some (KeyError ''Electrolyte concentration'')
   \<and> length (boundary_conditions (snd (set_boundary_conditions
          \<lparr>rhs = [], algebraic = [], initial_conditions = [], boundary_conditions = []\<rparr>
          Map.empty))) \<noteq> 1"
  by (simp add: set_boundary_conditions_def)

lemma py_or_falsy: "py_or t x d = (if falsy t x then d else the x)"
  by (simp add: py_or_def falsy_def split: option.splits)

text \<open>
  C9. \<open>StandardModelTest.__init__\<close> takes the model's default for every argument that is
  falsy and the argument itself for every truthy one. \<open>None\<close> is falsy, and so is an empty
  dictionary (an empty parameter set, geometry, \<open>submesh_types\<close>, \<open>var_pts\<close> or
  \<open>spatial_methods\<close>); a solver object is always truthy.
\<close>

theorem init_defaults:
  "StandardModelTest_init process_geometry m pv g st vp sm sv =
     (case process_geometry
             (if falsy dict_truthy pv then default_parameter_values m else the pv)
             (if falsy dict_truthy g then default_geometry m else the g) of
        Inl e \<Rightarrow> Inl e
      | Inr g2 \<Rightarrow>
          Inr \<lparr>model = m,
               parameter_values =
                 (if falsy dict_truthy pv then default_parameter_values m else the pv),
               solver = (if falsy object_truthy sv then default_solver m else the sv),
               disc =
                 Discretisation
                   (Mesh g2
                      (if falsy dict_truthy st then default_submesh_types m else the st)
                      (if falsy dict_truthy vp then default_var_pts m else the vp))
                   (if falsy dict_truthy sm then default_spatial_methods m else the sm),
               param = None\<rparr>)
   \<and> falsy dict_truthy (None :: parameter_values option)
   \<and> falsy dict_truthy (Some d) = (d = [])
   \<and> falsy object_truthy (None :: solver option)
   \<and> \<not> falsy object_truthy (Some s)"
  by (simp add: StandardModelTest_init_def py_or_falsy Let_def)
     (simp add: falsy_def dict_truthy_def object_truthy_def)

theorem init_defaults_witness:
  "StandardModelTest_init (\<lambda>p g. Inr g) example_model (Some []) (Some []) None (Some [(''x_n'', 5)])
      (Some []) None =
     Inr \<lparr>model = example_model,
          parameter_values = [(''Negative electrode width [m]'', Number 1)],
          solver = Solver ''default'',
          disc =
            Discretisation
              (Mesh [(''negative electrode'', [(''x_n'', [(''min'', 0), (''max'', 1)])])]
                 [(''negative electrode'', ''Uniform1DSubMesh'')]
                 [(''x_n'', 5)])
              [(''negative electrode'', ''FiniteVolume'')],
          param = None\<rparr>"
  using init_defaults [of "\<lambda>p g. Inr g" example_model "Some []" "Some []" None "Some [(''x_n'', 5)]"
      "Some []" None, THEN conjunct1]
  by (simp add: falsy_def dict_truthy_def object_truthy_def example_model_def)

lemma length_changed_present:
  assumes "l \<in> set (map fst new_param) \<longrightarrow> l \<in> set (map fst old_param)"
  shows "length_changed new_param old_param l = Inr (width_differs new_param old_param l)"
proof (cases "l \<in> set (map fst new_param)")
  case False
  then have "map_of new_param l = None"
    by (simp add: map_of_eq_None_iff)
  with False show ?thesis by (simp add: length_changed_def width_differs_def)
next
  case True
  then obtain v where v: "map_of new_param l = Some v"
    by (metis map_of_eq_None_iff not_Some_eq set_map)
  from True assms obtain w where w: "map_of old_param l = Some w"
    by (metis map_of_eq_None_iff not_Some_eq set_map)
  from True v w show ?thesis
    by (simp add: length_changed_def width_differs_def getitem_def)
qed

lemma lengths_changed_present:
  "\<forall>l\<in>set ls. l \<in> set (map fst new_param) \<longrightarrow> l \<in> set (map fst old_param) \<Longrightarrow>
   lengths_changed new_param old_param ls = Inr (map (width_differs new_param old_param) ls)"
  by (induction ls) (simp_all add: length_changed_present)

text \<open>
  C5 (as amended). Let the original parameter set have a value for every one of the three
  width names that the new set carries. If one of these widths differs from its original
  value, \<open>test_update_parameters\<close> raises the ValueError "geometry has changed ..." and
  leaves the test object as it was: \<open>update_model\<close> is not called and nothing is
  substituted. If none differs, the call stores the new set in \<open>self.param\<close>, runs
  \<open>update_model\<close> and then \<open>check_well_posedness\<close> on the model \<open>update_model\<close> left, and
  raises what they raise. With an \<open>update_model\<close> that keeps a well-posed model
  well-posed, on a model that is well-posed, the call then returns normally and leaves
  the model that \<open>update_model\<close> produced, which is well-posed.
\<close>

theorem test_update_parameters_guard:
  assumes "\<forall>l\<in>set geometry_lengths.
             l \<in> set (map fst new_param) \<longrightarrow> l \<in> set (map fst (parameter_values self))"
  shows "((\<exists>l\<in>set geometry_lengths. width_differs new_param (parameter_values self) l) \<longrightarrow>
            test_update_parameters update_model check_well_posedness self new_param =
              (Some (ValueError
                 ''geometry has changed, the orginal model needs to be re-discretised''),
               self))
       \<and> (\<not> (\<exists>l\<in>set geometry_lengths. width_differs new_param (parameter_values self) l) \<longrightarrow>
            test_update_parameters update_model check_well_posedness self new_param =
              (case fst (update_model new_param (model self) (disc self)) of
                 Some e \<Rightarrow> Some e
               | None \<Rightarrow>
                   check_well_posedness (snd (update_model new_param (model self) (disc self))),
               self\<lparr>param := Some new_param,
                    model := snd (update_model new_param (model self) (disc self))\<rparr>))
       \<and> (\<not> (\<exists>l\<in>set geometry_lengths. width_differs new_param (parameter_values self) l)
            \<and> keeps_well_posed update_model check_well_posedness
            \<and> check_well_posedness (model self) = None \<longrightarrow>
            test_update_parameters update_model check_well_posedness self new_param =
              (None,
               self\<lparr>param := Some new_param,
                    model := snd (update_model new_param (model self) (disc self))\<rparr>)
            \<and> check_well_posedness
                 (model (snd (test_update_parameters update_model check_well_posedness
                    self new_param))) = None)"
proof -
  let ?changed = "\<exists>l\<in>set geometry_lengths. width_differs new_param (parameter_values self) l"
  let ?updated = "update_model new_param (model self) (disc self)"
  have flags: "lengths_changed new_param (parameter_values self) geometry_lengths =
      Inr (map (width_differs new_param (parameter_values self)) geometry_lengths)"
    using assms by (rule lengths_changed_present)
  have ex: "list_ex (\<lambda>b. b) (map (width_differs new_param (parameter_values self)) geometry_lengths)
      = ?changed"
    by (simp add: list_ex_iff)
  have raise: "?changed \<Longrightarrow>
      test_update_parameters update_model check_well_posedness self new_param =
        (Some (ValueError
           ''geometry has changed, the orginal model needs to be re-discretised''), self)"
    unfolding test_update_parameters_def flags using ex by simp
  have go: "\<not> ?changed \<Longrightarrow>
      test_update_parameters update_model check_well_posedness self new_param =
        (case fst ?updated of
           Some e \<Rightarrow> Some e
         | None \<Rightarrow> check_well_posedness (snd ?updated),
         self\<lparr>param := Some new_param, model := snd ?updated\<rparr>)"
    unfolding test_update_parameters_def flags using ex
    by (simp add: Let_def split_beta split: option.splits)
  have wp: "test_update_parameters update_model check_well_posedness self new_param =
        (None, self\<lparr>param := Some new_param, model := snd ?updated\<rparr>)
      \<and> check_well_posedness
           (model (snd (test_update_parameters update_model check_well_posedness
              self new_param))) = None"
    if same: "\<not> ?changed" and keeps: "keeps_well_posed update_model check_well_posedness"
      and before: "check_well_posedness (model self) = None"
  proof -
    from keeps before have "fst ?updated = None" and "check_well_posedness (snd ?updated) = None"
      by (simp_all add: keeps_well_posed_def)
    with go [OF same] show ?thesis by simp
  qed
  from raise go wp show ?thesis by blast
qed

theorem test_update_parameters_guard_witness:
  "test_update_parameters (\<lambda>p m d. (None, m)) example_check example_test
      [(''Negative electrode width [m]'', Number 2)] =
     (Some (ValueError ''geometry has changed, the orginal model needs to be re-discretised''),
      example_test)
   \<and> test_update_parameters (\<lambda>p m d. (None, m)) example_check example_test
      [(''Negative electrode width [m]'', Number 1), (''Current function [A]'', Number 2.5)] =
     (None,
      example_test\<lparr>param :=
        Some [(''Negative electrode width [m]'', Number 1),
              (''Current function [A]'', Number 2.5)]\<rparr>)
   \<and> example_check (model (snd (test_update_parameters (\<lambda>p m d. (None, m)) example_check
        example_test
        [(''Negative electrode width [m]'', Number 1), (''Current function [A]'', Number 2.5)])))
      = None"
proof -
  let ?um = "\<lambda>(p :: parameter_values) (m :: model) (d :: discretisation). (None :: exn option, m)"
  let ?wider = "[(''Negative electrode width [m]'', Number 2)]"
  let ?same = "[(''Negative electrode width [m]'', Number 1),
                (''Current function [A]'', Number 2.5)]"
  have h1: "\<forall>l\<in>set geometry_lengths.
      l \<in> set (map fst ?wider) \<longrightarrow> l \<in> set (map fst (parameter_values example_test))"
    by (simp add: geometry_lengths_def example_test_def)
  have h2: "\<forall>l\<in>set geometry_lengths.
      l \<in> set (map fst ?same) \<longrightarrow> l \<in> set (map fst (parameter_values example_test))"
    by (simp add: geometry_lengths_def example_test_def)
  have d1: "\<exists>l\<in>set geometry_lengths. width_differs ?wider (parameter_values example_test) l"
    by (simp add: geometry_lengths_def example_test_def width_differs_def py_ne_def)
  have d2: "\<not> (\<exists>l\<in>set geometry_lengths. width_differs ?same (parameter_values example_test) l)"
    by (simp add: geometry_lengths_def example_test_def width_differs_def py_ne_def)
  have keeps: "keeps_well_posed ?um example_check"
    by (simp add: keeps_well_posed_def)
  have before: "example_check (model example_test) = None"
    by (simp add: example_check_def example_test_def example_model_def)
  from d2 keeps before
  have d3: "\<not> (\<exists>l\<in>set geometry_lengths. width_differs ?same (parameter_values example_test) l)
      \<and> keeps_well_posed ?um example_check \<and> example_check (model example_test) = None"
    by blast
  note raised = test_update_parameters_guard [OF h1, of ?um example_check, THEN conjunct1,
      THEN mp, OF d1]
  note passed = test_update_parameters_guard [OF h2, of ?um example_check, THEN conjunct2,
      THEN conjunct2, THEN mp, OF d3]
  from passed have "test_update_parameters ?um example_check example_test ?same =
      (None, example_test\<lparr>param := Some ?same\<rparr>)"
    by (simp add: example_test_def)
  with raised passed show ?thesis
    by blast
qed

text \<open>
  Without the proviso on the names the property fails. Here the new set carries a width
  name that the original set lacks: the negative electrode width differs from its
  original value, yet the lookup of the original separator width raises KeyError before
  \<open>any\<close> is reached.
\<close>

theorem test_update_parameters_key_error_counterexample:
  "width_differs
      [(''Negative electrode width [m]'', Number 2), (''Separator width [m]'', Number 1)]
      (parameter_values example_test) ''Negative electrode width [m]''
   \<and> test_update_parameters (\<lambda>p m d. (None, m)) (\<lambda>m. None) example_test
      [(''Negative electrode width [m]'', Number 2), (''Separator width [m]'', Number 1)] =
     (Some (KeyError ''Separator width [m]''), example_test)"
  by (simp add: width_differs_def py_ne_def example_test_def test_update_parameters_def
      geometry_lengths_def length_changed_def getitem_def)

lemma overlapping_iff: "overlapping r s \<longleftrightarrow> range_set r \<inter> range_set s \<noteq> {}"
proof -
  have "range_set r \<inter> range_set s = {max (fst r) (fst s)..<min (snd r) (snd s)}"
    by (auto simp: range_set_def)
  then show ?thesis by (auto simp: overlapping_def)
qed

lemma has_overlap_iff: "has_overlap rs \<longleftrightarrow> \<not> disjoint_ranges rs"
  by (induction rs) (auto simp: list_ex_iff overlapping_iff)

lemma covered_iff: "covered rs i \<longleftrightarrow> i \<in> (\<Union>r\<in>set rs. range_set r)"
  by (auto simp: covered_def list_ex_iff range_set_def)

lemma card_disjoint_ranges:
  "disjoint_ranges rs \<Longrightarrow> card (\<Union>r\<in>set rs. range_set r) = total_state_size rs"
proof (induction rs)
  case Nil
  then show ?case by (simp add: total_state_size_def)
next
  case (Cons r rs)
  have fin: "finite (\<Union>s\<in>set rs. range_set s)" by (simp add: range_set_def)
  have dis: "range_set r \<inter> (\<Union>s\<in>set rs. range_set s) = {}"
    using Cons.prems by auto
  have "card (range_set r \<union> (\<Union>s\<in>set rs. range_set s)) =
      card (range_set r) + card (\<Union>s\<in>set rs. range_set s)"
    using fin dis by (simp add: card_Un_disjoint range_set_def)
  with Cons show ?case
    by (simp add: total_state_size_def range_set_def)
qed

lemma check_accepts_iff:
  "check_state_vector_ranges rs = None \<longleftrightarrow>
     disjoint_ranges rs \<and> (\<Union>r\<in>set rs. range_set r) = {0..<total_state_size rs}"
proof
  assume ok: "check_state_vector_ranges rs = None"
  then have d: "disjoint_ranges rs"
    by (auto simp: check_state_vector_ranges_def has_overlap_iff split: if_splits)
  from ok have "list_all (covered rs) [0..<total_state_size rs]"
    by (auto simp: check_state_vector_ranges_def split: if_splits)
  then have sub: "{0..<total_state_size rs} \<subseteq> (\<Union>r\<in>set rs. range_set r)"
    by (auto simp: list_all_iff covered_iff)
  have fin: "finite (\<Union>r\<in>set rs. range_set r)" by (simp add: range_set_def)
  have "card {0..<total_state_size rs} = card (\<Union>r\<in>set rs. range_set r)"
    using card_disjoint_ranges [OF d] by simp
  with sub fin have "{0..<total_state_size rs} = (\<Union>r\<in>set rs. range_set r)"
    by (simp add: card_subset_eq)
  with d show "disjoint_ranges rs \<and> (\<Union>r\<in>set rs. range_set r) = {0..<total_state_size rs}"
    by simp
next
  assume "disjoint_ranges rs \<and> (\<Union>r\<in>set rs. range_set r) = {0..<total_state_size rs}"
  then have d: "disjoint_ranges rs"
    and u: "(\<Union>r\<in>set rs. range_set r) = {0..<total_state_size rs}" by simp_all
  have "list_all (covered rs) [0..<total_state_size rs]"
    unfolding list_all_iff covered_iff u by simp
  with d show "check_state_vector_ranges rs = None"
    by (simp add: check_state_vector_ranges_def has_overlap_iff)
qed

lemma allocate_union:
  "(\<Union>r\<in>set (map snd (allocate size_of first vs)). range_set r) =
     {first..<first + sum_list (map size_of vs)}"
  by (induction vs arbitrary: first) (auto simp: range_set_def)

lemma allocate_disjoint: "disjoint_ranges (map snd (allocate size_of first vs))"
proof (induction vs arbitrary: first)
  case Nil
  then show ?case by simp
next
  case (Cons v vs)
  have "range_set (first, first + size_of v) \<inter>
      (\<Union>r\<in>set (map snd (allocate size_of (first + size_of v) vs)). range_set r) = {}"
    unfolding allocate_union by (auto simp: range_set_def)
  then have "\<forall>s\<in>set (map snd (allocate size_of (first + size_of v) vs)).
      range_set (first, first + size_of v) \<inter> range_set s = {}"
    by blast
  with Cons.IH show ?case by simp
qed

lemma allocate_total:
  "total_state_size (map snd (allocate size_of first vs)) = sum_list (map size_of vs)"
  by (induction vs arbitrary: first) (simp_all add: total_state_size_def)

lemma allocate_variables: "map fst (allocate size_of first vs) = vs"
  by (induction vs arbitrary: first) simp_all

text \<open>
  C2. The index ranges that the discretisation allocates are pairwise disjoint, their
  union is exactly \<open>[0, N)\<close> with \<open>N\<close> the sum of the discretised sizes of the variables, one
  range per variable in first-seen order, and the post-discretisation check accepts
  them. For any list of ranges the check accepts exactly the lists that are pairwise
  disjoint and whose union is \<open>[0, total)\<close>; every other list (a gap or an overlap) fails
  with a ModelError.
\<close>

theorem state_vector_ranges_tile:
  "disjoint_ranges (map snd (y_slices npts m))
   \<and> (\<Union>r\<in>set (map snd (y_slices npts m)). range_set r) =
       {0..<sum_list (map (variable_size npts) (model_variables m))}
   \<and> map fst (y_slices npts m) = model_variables m
   \<and> check_state_vector_ranges (map snd (y_slices npts m)) = None
   \<and> (check_state_vector_ranges rs = None \<longleftrightarrow>
        disjoint_ranges rs \<and> (\<Union>r\<in>set rs. range_set r) = {0..<total_state_size rs})
   \<and> (check_state_vector_ranges rs \<noteq> None \<longrightarrow>
        check_state_vector_ranges rs = Some (ModelError ''duplicate state'')
        \<or> check_state_vector_ranges rs = Some (ModelError ''Missing variable''))"
proof -
  let ?rs = "map snd (y_slices npts m)"
  have d: "disjoint_ranges ?rs"
    unfolding y_slices_def by (rule allocate_disjoint)
  have u: "(\<Union>r\<in>set ?rs. range_set r) =
      {0..<sum_list (map (variable_size npts) (model_variables m))}"
    unfolding y_slices_def allocate_union by simp
  have t: "total_state_size ?rs = sum_list (map (variable_size npts) (model_variables m))"
    unfolding y_slices_def by (rule allocate_total)
  have v: "map fst (y_slices npts m) = model_variables m"
    unfolding y_slices_def by (rule allocate_variables)
  have c: "check_state_vector_ranges ?rs = None"
    using d u t by (simp add: check_accepts_iff)
  have e: "check_state_vector_ranges rs \<noteq> None \<longrightarrow>
      check_state_vector_ranges rs = Some (ModelError ''duplicate state'')
      \<or> check_state_vector_ranges rs = Some (ModelError ''Missing variable'')"
    by (simp add: check_state_vector_ranges_def)
  from d u v c e check_accepts_iff [of rs] show ?thesis
    by blast
qed

lemma ex_vars: "model_variables example_particle_model =
   [Variable ''c_s_n'' [''negative particle''] [[''negative electrode'']],
    Variable ''phi_e'' [''separator''] []]"
  by (simp add: model_variables_def example_particle_model_def equation_nodes_def
      boundary_nodes_def first_seen_def)

lemma ex_slices: "y_slices example_npts example_particle_model =
   [(Variable ''c_s_n'' [''negative particle''] [[''negative electrode'']], 0, 6),
    (Variable ''phi_e'' [''separator''] [], 6, 10)]"
  by (simp add: y_slices_def ex_vars example_npts_def)

lemma ex_gap: "check_state_vector_ranges [(0, 6), (7, 11)] = Some (ModelError ''Missing variable'')"
  by (simp add: check_state_vector_ranges_def overlapping_def total_state_size_def covered_def
      upt_rec)

lemma ex_dup: "check_state_vector_ranges [(0, 6), (5, 9)] = Some (ModelError ''duplicate state'')"
  by (simp add: check_state_vector_ranges_def overlapping_def)

theorem state_vector_ranges_tile_witness:
  "map snd (y_slices example_npts example_particle_model) = [(0, 6), (6, 10)]
   \<and> check_state_vector_ranges [(0, 6), (6, 10)] = None
   \<and> disjoint_ranges [(0, 6), (6, 10)]
   \<and> (\<Union>r\<in>set [(0, 6), (6, 10)]. range_set r) = {0..<10}
   \<and> check_state_vector_ranges [(0, 6), (7, 11)] = Some (ModelError ''Missing variable'')
   \<and> \<not> (disjoint_ranges [(0, 6), (7, 11)]
        \<and> (\<Union>r\<in>set [(0, 6), (7, 11)]. range_set r) = {0..<total_state_size [(0, 6), (7, 11)]})
   \<and> check_state_vector_ranges [(0, 6), (5, 9)] = Some (ModelError ''duplicate state'')
   \<and> \<not> (disjoint_ranges [(0, 6), (5, 9)]
        \<and> (\<Union>r\<in>set [(0, 6), (5, 9)]. range_set r) = {0..<total_state_size [(0, 6), (5, 9)]})"
proof -
  note t = state_vector_ranges_tile [of example_npts example_particle_model]
  have s: "map snd (y_slices example_npts example_particle_model) = [(0, 6), (6, 10)]"
    by (simp add: ex_slices)
  have n: "sum_list (map (variable_size example_npts) (model_variables example_particle_model)) = 10"
    by (simp add: ex_vars example_npts_def)
  have ok: "check_state_vector_ranges [(0, 6), (6, 10)] = None"
    using t [of "[]"] unfolding s by blast
  have dj: "disjoint_ranges [(0, 6), (6, 10)]"
    using t [of "[]"] unfolding s by blast
  have un: "(\<Union>r\<in>set [(0, 6), (6, 10)]. range_set r) = {0..<10}"
    using t [of "[]"] unfolding s n by blast
  have "check_state_vector_ranges [(0, 6), (7, 11)] \<noteq> None"
    by (simp add: ex_gap)
  with t [of "[(0, 6), (7, 11)]"]
  have gap: "\<not> (disjoint_ranges [(0, 6), (7, 11)]
        \<and> (\<Union>r\<in>set [(0, 6), (7, 11)]. range_set r) = {0..<total_state_size [(0, 6), (7, 11)]})"
    by blast
  have "check_state_vector_ranges [(0, 6), (5, 9)] \<noteq> None"
    by (simp add: ex_dup)
  with t [of "[(0, 6), (5, 9)]"]
  have dup: "\<not> (disjoint_ranges [(0, 6), (5, 9)]
        \<and> (\<Union>r\<in>set [(0, 6), (5, 9)]. range_set r) = {0..<total_state_size [(0, 6), (5, 9)]})"
    by blast
  from s ok dj un gap dup ex_gap ex_dup show ?thesis by blast
qed

text \<open>
  C4. \<open>build_model\<close> on a model that is built already (in state Built or any later state)
  fails with a ModelError that mentions "Model already built" and leaves the model, and
  so its equations, as they were. In particular a second \<open>build_model\<close> after a first one
  that succeeded fails this way.
\<close>

theorem build_model_already_built:
  "(lifecycle_state m \<noteq> Unbuilt \<longrightarrow>
      build_model build_submodels m = (Some (ModelError ''Model already built''), m)
      \<and> is_ModelError (fst (build_model build_submodels m))
      \<and> mentions ''Model already built'' (fst (build_model build_submodels m))
      \<and> snd (build_model build_submodels m) = m
      \<and> rhs (snd (build_model build_submodels m)) = rhs m
      \<and> algebraic (snd (build_model build_submodels m)) = algebraic m
      \<and> initial_conditions (snd (build_model build_submodels m)) = initial_conditions m
      \<and> boundary_conditions (snd (build_model build_submodels m)) = boundary_conditions m)
   \<and> (fst (build_model build_submodels m) = None \<longrightarrow>
      lifecycle_state (snd (build_model build_submodels m)) = Built
      \<and> build_model build_submodels (snd (build_model build_submodels m)) =
          (Some (ModelError ''Model already built''), snd (build_model build_submodels m)))"
proof (intro conjI impI)
  assume late: "lifecycle_state m \<noteq> Unbuilt"
  then have e: "build_model build_submodels m = (Some (ModelError ''Model already built''), m)"
    by (simp add: build_model_def)
  show "build_model build_submodels m = (Some (ModelError ''Model already built''), m)"
    by (rule e)
  show "is_ModelError (fst (build_model build_submodels m))"
    by (simp add: e)
  show "mentions ''Model already built'' (fst (build_model build_submodels m))"
    by (simp add: e)
  show "snd (build_model build_submodels m) = m"
    by (simp add: e)
  show "rhs (snd (build_model build_submodels m)) = rhs m"
    by (simp add: e)
  show "algebraic (snd (build_model build_submodels m)) = algebraic m"
    by (simp add: e)
  show "initial_conditions (snd (build_model build_submodels m)) = initial_conditions m"
    by (simp add: e)
  show "boundary_conditions (snd (build_model build_submodels m)) = boundary_conditions m"
    by (simp add: e)
next
  assume ok: "fst (build_model build_submodels m) = None"
  then show b: "lifecycle_state (snd (build_model build_submodels m)) = Built"
    by (auto simp: build_model_def split: if_splits prod.splits option.splits)
  then show "build_model build_submodels (snd (build_model build_submodels m)) =
      (Some (ModelError ''Model already built''), snd (build_model build_submodels m))"
    by (simp add: build_model_def [of build_submodels "snd (build_model build_submodels m)"])
qed

theorem build_model_already_built_witness:
  "build_model (\<lambda>m. (None, m\<lparr>rhs := []\<rparr>)) (example_battery_model Discretised) =
     (Some (ModelError ''Model already built''), example_battery_model Discretised)
   \<and> fst (build_model (\<lambda>m. (None, m\<lparr>rhs := []\<rparr>)) (example_battery_model Unbuilt)) = None
   \<and> fst (build_model (\<lambda>m. (None, m\<lparr>rhs := []\<rparr>))
        (snd (build_model (\<lambda>m. (None, m\<lparr>rhs := []\<rparr>)) (example_battery_model Unbuilt)))) =
       Some (ModelError ''Model already built'')"
proof -
  let ?b = "\<lambda>m :: battery_model. (None :: exn option, m\<lparr>rhs := []\<rparr>)"
  have late: "lifecycle_state (example_battery_model Discretised) \<noteq> Unbuilt"
    by (simp add: example_battery_model_def)
  have first: "fst (build_model ?b (example_battery_model Unbuilt)) = None"
    by (simp add: build_model_def example_battery_model_def)
  from build_model_already_built [of "example_battery_model Discretised" ?b, THEN conjunct1,
      THEN mp, OF late, THEN conjunct1]
  have one: "build_model ?b (example_battery_model Discretised) =
      (Some (ModelError ''Model already built''), example_battery_model Discretised)" .
  from build_model_already_built [of "example_battery_model Unbuilt" ?b, THEN conjunct2,
      THEN mp, OF first]
  have two: "fst (build_model ?b (snd (build_model ?b (example_battery_model Unbuilt)))) =
      Some (ModelError ''Model already built'')"
    by simp
  from one first two show ?thesis by blast
qed

lemma sound_Inl: "sound sem t y (Inl e) r0 \<longleftrightarrow> r0 = Inl e"
  by (simp add: sound_def)

lemma sound_Inr: "sound sem t y (Inr (v, known)) r0 \<longleftrightarrow> r0 = Inr v \<and> consistent sem t y known"
  by (simp add: sound_def)

lemma sound_store:
  "consistent sem t y known \<Longrightarrow> evaluate sem t y s = r0 \<Longrightarrow> sound sem t y (store s known r0) r0"
  by (cases r0) (auto simp: store_def sound_def consistent_def)

lemma sound_hit:
  "consistent sem t y known \<Longrightarrow> known s = Some v \<Longrightarrow>
   sound sem t y (Inr (v, known)) (evaluate sem t y s)"
  by (simp add: sound_def consistent_def)

lemma evaluate_known_sound:
  "consistent sem t y known \<Longrightarrow>
     sound sem t y (evaluate_known sem t y known s) (evaluate sem t y s)"
  and evaluate_known_children_sound:
  "consistent sem t y known \<Longrightarrow>
     sound sem t y (evaluate_known_children sem t y known cs) (evaluate_children sem t y cs)"
proof (induction sem t y known s and sem t y known cs
    rule: evaluate_known_evaluate_known_children.induct)
  case (1 sem t y known f args)
  show ?case
  proof (cases "known (FunctionParameter f args)")
    case (Some v)
    with sound_hit [OF "1.prems" Some] show ?thesis by simp
  next
    case None
    note ih = "1.IH" [OF None "1.prems"]
    show ?thesis
    proof (cases "evaluate_known_children sem t y known args")
      case (Inl e)
      with ih have "evaluate_children sem t y args = Inl e" by (simp add: sound_Inl)
      with None Inl show ?thesis by (simp add: sound_Inl)
    next
      case (Inr p)
      obtain v1 k1 where p: "p = (v1, k1)" by (cases p)
      from ih Inr p have ev: "evaluate_children sem t y args = Inr v1" and ck: "consistent sem t y k1"
        by (simp_all add: sound_Inr)
      from ev have "evaluate sem t y (FunctionParameter f args) = sem (FunctionParameter f args) t y v1"
        by simp
      from sound_store [OF ck this] None Inr p ev show ?thesis by simp
    qed
  qed
next
  case (2 sem t y known b l r)
  show ?case
  proof (cases "known (BinaryOperator b l r)")
    case (Some v)
    with sound_hit [OF "2.prems" Some] show ?thesis by simp
  next
    case None
    note ih1 = "2.IH"(1) [OF None "2.prems"]
    show ?thesis
    proof (cases "evaluate_known sem t y known l")
      case (Inl e)
      with ih1 have "evaluate sem t y l = Inl e" by (simp add: sound_Inl)
      with None Inl show ?thesis by (simp add: sound_Inl)
    next
      case left: (Inr p)
      obtain vl k1 where p: "p = (vl, k1)" by (cases p)
      from ih1 left p have el: "evaluate sem t y l = Inr vl" and c1: "consistent sem t y k1"
        by (simp_all add: sound_Inr)
      note ih2 = "2.IH"(2) [OF None left [unfolded p] refl c1]
      show ?thesis
      proof (cases "evaluate_known sem t y k1 r")
        case (Inl e)
        with ih2 have "evaluate sem t y r = Inl e" by (simp add: sound_Inl)
        with None left p Inl el show ?thesis by (simp add: sound_Inl)
      next
        case (Inr q)
        obtain vr k2 where q: "q = (vr, k2)" by (cases q)
        from ih2 Inr q have er: "evaluate sem t y r = Inr vr" and c2: "consistent sem t y k2"
          by (simp_all add: sound_Inr)
        from el er have "evaluate sem t y (BinaryOperator b l r) =
            sem (BinaryOperator b l r) t y [vl, vr]"
          by simp
        from sound_store [OF c2 this] None left p Inr q el er show ?thesis by simp
      qed
    qed
  qed
next
  case (3 sem t y known u c)
  show ?case
  proof (cases "known (UnaryOperator u c)")
    case (Some v)
    with sound_hit [OF "3.prems" Some] show ?thesis by simp
  next
    case None
    note ih = "3.IH" [OF None "3.prems"]
    show ?thesis
    proof (cases "evaluate_known sem t y known c")
      case (Inl e)
      with ih have "evaluate sem t y c = Inl e" by (simp add: sound_Inl)
      with None Inl show ?thesis by (simp add: sound_Inl)
    next
      case (Inr p)
      obtain v1 k1 where p: "p = (v1, k1)" by (cases p)
      from ih Inr p have ev: "evaluate sem t y c = Inr v1" and ck: "consistent sem t y k1"
        by (simp_all add: sound_Inr)
      from ev have "evaluate sem t y (UnaryOperator u c) = sem (UnaryOperator u c) t y [v1]"
        by simp
      from sound_store [OF ck this] None Inr p ev show ?thesis by simp
    qed
  qed
next
  case (4 sem t y known k c)
  show ?case
  proof (cases "known (SpatialOperator k c)")
    case (Some v)
    with sound_hit [OF "4.prems" Some] show ?thesis by simp
  next
    case None
    note ih = "4.IH" [OF None "4.prems"]
    show ?thesis
    proof (cases "evaluate_known sem t y known c")
      case (Inl e)
      with ih have "evaluate sem t y c = Inl e" by (simp add: sound_Inl)
      with None Inl show ?thesis by (simp add: sound_Inl)
    next
      case (Inr p)
      obtain v1 k1 where p: "p = (v1, k1)" by (cases p)
      from ih Inr p have ev: "evaluate sem t y c = Inr v1" and ck: "consistent sem t y k1"
        by (simp_all add: sound_Inr)
      from ev have "evaluate sem t y (SpatialOperator k c) = sem (SpatialOperator k c) t y [v1]"
        by simp
      from sound_store [OF ck this] None Inr p ev show ?thesis by simp
    qed
  qed
next
  case (5 sem t y known c d)
  show ?case
  proof (cases "known (Broadcast c d)")
    case (Some v)
    with sound_hit [OF "5.prems" Some] show ?thesis by simp
  next
    case None
    note ih = "5.IH" [OF None "5.prems"]
    show ?thesis
    proof (cases "evaluate_known sem t y known c")
      case (Inl e)
      with ih have "evaluate sem t y c = Inl e" by (simp add: sound_Inl)
      with None Inl show ?thesis by (simp add: sound_Inl)
    next
      case (Inr p)
      obtain v1 k1 where p: "p = (v1, k1)" by (cases p)
      from ih Inr p have ev: "evaluate sem t y c = Inr v1" and ck: "consistent sem t y k1"
        by (simp_all add: sound_Inr)
      from ev have "evaluate sem t y (Broadcast c d) = sem (Broadcast c d) t y [v1]"
        by simp
      from sound_store [OF ck this] None Inr p ev show ?thesis by simp
    qed
  qed
next
  case (6 sem t y known cs)
  show ?case
  proof (cases "known (Concatenation cs)")
    case (Some v)
    with sound_hit [OF "6.prems" Some] show ?thesis by simp
  next
    case None
    note ih = "6.IH" [OF None "6.prems"]
    show ?thesis
    proof (cases "evaluate_known_children sem t y known cs")
      case (Inl e)
      with ih have "evaluate_children sem t y cs = Inl e" by (simp add: sound_Inl)
      with None Inl show ?thesis by (simp add: sound_Inl)
    next
      case (Inr p)
      obtain v1 k1 where p: "p = (v1, k1)" by (cases p)
      from ih Inr p have ev: "evaluate_children sem t y cs = Inr v1" and ck: "consistent sem t y k1"
        by (simp_all add: sound_Inr)
      from ev have "evaluate sem t y (Concatenation cs) = sem (Concatenation cs) t y v1"
        by simp
      from sound_store [OF ck this] None Inr p ev show ?thesis by simp
    qed
  qed
next
  case (7 sem t y known n)
  show ?case
  proof (cases "known (Parameter n)")
    case (Some w)
    with sound_hit [OF "7.prems" Some] show ?thesis by simp
  next
    case None
    have "evaluate sem t y (Parameter n) = sem (Parameter n) t y []" by simp
    from sound_store [OF "7.prems" this] None show ?thesis by simp
  qed
next
  case (8 sem t y known n d a)
  show ?case
  proof (cases "known (Variable n d a)")
    case (Some w)
    with sound_hit [OF "8.prems" Some] show ?thesis by simp
  next
    case None
    have "evaluate sem t y (Variable n d a) = sem (Variable n d a) t y []" by simp
    from sound_store [OF "8.prems" this] None show ?thesis by simp
  qed
next
  case (9 sem t y known i j)
  show ?case
  proof (cases "known (StateVector i j)")
    case (Some w)
    with sound_hit [OF "9.prems" Some] show ?thesis by simp
  next
    case None
    have "evaluate sem t y (StateVector i j) = sem (StateVector i j) t y []" by simp
    from sound_store [OF "9.prems" this] None show ?thesis by simp
  qed
next
  case (10 sem t y known v)
  show ?case
  proof (cases "known (Scalar v)")
    case (Some w)
    with sound_hit [OF "10.prems" Some] show ?thesis by simp
  next
    case None
    have "evaluate sem t y (Scalar v) = sem (Scalar v) t y []" by simp
    from sound_store [OF "10.prems" this] None show ?thesis by simp
  qed
next
  case (11 sem t y known)
  show ?case
  proof (cases "known (Time)")
    case (Some w)
    with sound_hit [OF "11.prems" Some] show ?thesis by simp
  next
    case None
    have "evaluate sem t y (Time) = sem (Time) t y []" by simp
    from sound_store [OF "11.prems" this] None show ?thesis by simp
  qed
next
  case (12 sem t y known)
  then show ?case by (simp add: sound_Inr)
next
  case (13 sem t y known c cs)
  note ih1 = "13.IH"(1) [OF "13.prems"]
  show ?case
  proof (cases "evaluate_known sem t y known c")
    case (Inl e)
    with ih1 have "evaluate sem t y c = Inl e" by (simp add: sound_Inl)
    with Inl show ?thesis by (simp add: sound_Inl)
  next
    case first: (Inr p)
    obtain v k1 where p: "p = (v, k1)" by (cases p)
    from ih1 first p have ec: "evaluate sem t y c = Inr v" and c1: "consistent sem t y k1"
      by (simp_all add: sound_Inr)
    note ih2 = "13.IH"(2) [OF first [unfolded p] refl c1]
    show ?thesis
    proof (cases "evaluate_known_children sem t y k1 cs")
      case (Inl e)
      with ih2 have "evaluate_children sem t y cs = Inl e" by (simp add: sound_Inl)
      with first p Inl ec show ?thesis by (simp add: sound_Inl)
    next
      case (Inr q)
      obtain vs k2 where q: "q = (vs, k2)" by (cases q)
      from ih2 Inr q have "evaluate_children sem t y cs = Inr vs" and "consistent sem t y k2"
        by (simp_all add: sound_Inr)
      with Inr q first p ec show ?thesis by (simp add: sound_Inr)
    qed
  qed
qed

lemma evaluate_known_hit:
  "known s = Some v \<Longrightarrow> evaluate_known sem t y known s = Inr (v, known)"
  by (cases s) simp_all

lemma consistent_empty: "consistent sem t y Map.empty"
  by (simp add: consistent_def)

lemma value_of_sound: "sound sem t y r r0 \<Longrightarrow> value_of r = r0"
  by (auto simp: sound_def value_of_def split: sum.splits)

lemma store_Inr:
  "store s known r = Inr (v, k) \<longleftrightarrow> r = Inr v \<and> k = known(s \<mapsto> v)"
  by (cases r) (auto simp: store_def)

lemma map_le_fresh: "known \<subseteq>\<^sub>m k \<Longrightarrow> known s = None \<Longrightarrow> known \<subseteq>\<^sub>m k(s \<mapsto> v)"
  by (auto simp: map_le_def)

lemma evaluate_known_grows:
  "evaluate_known sem t y known s = Inr (v, k) \<Longrightarrow> known \<subseteq>\<^sub>m k \<and> k s = Some v"
  and evaluate_known_children_grows:
  "evaluate_known_children sem t y known cs = Inr (vs, k) \<Longrightarrow> known \<subseteq>\<^sub>m k"
proof (induction sem t y known s and sem t y known cs arbitrary: v k and vs k
    rule: evaluate_known_evaluate_known_children.induct)
  case (1 sem t y known f args)
  let ?node = "FunctionParameter f args"
  show ?case
  proof (cases "known ?node")
    case (Some w)
    with "1.prems" show ?thesis by simp
  next
    case None
    from "1.prems" None obtain v1 k1 where
      c: "evaluate_known_children sem t y known args = Inr (v1, k1)"
      and s: "store (FunctionParameter f args) k1 (sem (FunctionParameter f args) t y v1) = Inr (v, k)"
      by (auto split: sum.splits)
    from "1.IH" [OF None c] have le: "known \<subseteq>\<^sub>m k1" by simp
    from s have kk: "k = k1(?node \<mapsto> v)" by (simp add: store_Inr)
    have "known \<subseteq>\<^sub>m k" unfolding kk using le None by (rule map_le_fresh)
    moreover have "k ?node = Some v" unfolding kk by simp
    ultimately show ?thesis by blast
  qed
next
  case (2 sem t y known b l r)
  let ?node = "BinaryOperator b l r"
  show ?case
  proof (cases "known ?node")
    case (Some w)
    with "2.prems" show ?thesis by simp
  next
    case None
    from "2.prems" None obtain vl k1 vr k2 where
      cl: "evaluate_known sem t y known l = Inr (vl, k1)"
      and cr: "evaluate_known sem t y k1 r = Inr (vr, k2)"
      and s: "store (BinaryOperator b l r) k2 (sem (BinaryOperator b l r) t y [vl, vr]) = Inr (v, k)"
      by (auto split: sum.splits)
    from "2.IH"(1) [OF None cl] have "known \<subseteq>\<^sub>m k1" by simp
    moreover from "2.IH"(2) [OF None cl refl cr] have "k1 \<subseteq>\<^sub>m k2" by simp
    ultimately have le: "known \<subseteq>\<^sub>m k2" by (rule map_le_trans)
    from s have kk: "k = k2(?node \<mapsto> v)" by (simp add: store_Inr)
    have "known \<subseteq>\<^sub>m k" unfolding kk using le None by (rule map_le_fresh)
    moreover have "k ?node = Some v" unfolding kk by simp
    ultimately show ?thesis by blast
  qed
next
  case (3 sem t y known u c)
  let ?node = "UnaryOperator u c"
  show ?case
  proof (cases "known ?node")
    case (Some w)
    with "3.prems" show ?thesis by simp
  next
    case None
    from "3.prems" None obtain v1 k1 where
      c: "evaluate_known sem t y known c = Inr (v1, k1)"
      and s: "store (UnaryOperator u c) k1 (sem (UnaryOperator u c) t y [v1]) = Inr (v, k)"
      by (auto split: sum.splits)
    from "3.IH" [OF None c] have le: "known \<subseteq>\<^sub>m k1" by simp
    from s have kk: "k = k1(?node \<mapsto> v)" by (simp add: store_Inr)
    have "known \<subseteq>\<^sub>m k" unfolding kk using le None by (rule map_le_fresh)
    moreover have "k ?node = Some v" unfolding kk by simp
    ultimately show ?thesis by blast
  qed
next
  case (4 sem t y known ka c)
  let ?node = "SpatialOperator ka c"
  show ?case
  proof (cases "known ?node")
    case (Some w)
    with "4.prems" show ?thesis by simp
  next
    case None
    from "4.prems" None obtain v1 k1 where
      c: "evaluate_known sem t y known c = Inr (v1, k1)"
      and s: "store (SpatialOperator ka c) k1 (sem (SpatialOperator ka c) t y [v1]) = Inr (v, k)"
      by (auto split: sum.splits)
    from "4.IH" [OF None c] have le: "known \<subseteq>\<^sub>m k1" by simp
    from s have kk: "k = k1(?node \<mapsto> v)" by (simp add: store_Inr)
    have "known \<subseteq>\<^sub>m k" unfolding kk using le None by (rule map_le_fresh)
    moreover have "k ?node = Some v" unfolding kk by simp
    ultimately show ?thesis by blast
  qed
next
  case (5 sem t y known c d)
  let ?node = "Broadcast c d"
  show ?case
  proof (cases "known ?node")
    case (Some w)
    with "5.prems" show ?thesis by simp
  next
    case None
    from "5.prems" None obtain v1 k1 where
      c: "evaluate_known sem t y known c = Inr (v1, k1)"
      and s: "store (Broadcast c d) k1 (sem (Broadcast c d) t y [v1]) = Inr (v, k)"
      by (auto split: sum.splits)
    from "5.IH" [OF None c] have le: "known \<subseteq>\<^sub>m k1" by simp
    from s have kk: "k = k1(?node \<mapsto> v)" by (simp add: store_Inr)
    have "known \<subseteq>\<^sub>m k" unfolding kk using le None by (rule map_le_fresh)
    moreover have "k ?node = Some v" unfolding kk by simp
    ultimately show ?thesis by blast
  qed
next
  case (6 sem t y known cs)
  let ?node = "Concatenation cs"
  show ?case
  proof (cases "known ?node")
    case (Some w)
    with "6.prems" show ?thesis by simp
  next
    case None
    from "6.prems" None obtain v1 k1 where
      c: "evaluate_known_children sem t y known cs = Inr (v1, k1)"
      and s: "store (Concatenation cs) k1 (sem (Concatenation cs) t y v1) = Inr (v, k)"
      by (auto split: sum.splits)
    from "6.IH" [OF None c] have le: "known \<subseteq>\<^sub>m k1" by simp
    from s have kk: "k = k1(?node \<mapsto> v)" by (simp add: store_Inr)
    have "known \<subseteq>\<^sub>m k" unfolding kk using le None by (rule map_le_fresh)
    moreover have "k ?node = Some v" unfolding kk by simp
    ultimately show ?thesis by blast
  qed
next
  case (7 sem t y known n)
  let ?node = "Parameter n"
  show ?case
  proof (cases "known ?node")
    case (Some w)
    with "7.prems" show ?thesis by simp
  next
    case None
    with "7.prems" have kk: "k = known(?node \<mapsto> v)" by (simp add: store_Inr)
    have "known \<subseteq>\<^sub>m k" unfolding kk using map_le_refl None by (rule map_le_fresh)
    moreover have "k ?node = Some v" unfolding kk by simp
    ultimately show ?thesis by blast
  qed
next
  case (8 sem t y known n d a)
  let ?node = "Variable n d a"
  show ?case
  proof (cases "known ?node")
    case (Some w)
    with "8.prems" show ?thesis by simp
  next
    case None
    with "8.prems" have kk: "k = known(?node \<mapsto> v)" by (simp add: store_Inr)
    have "known \<subseteq>\<^sub>m k" unfolding kk using map_le_refl None by (rule map_le_fresh)
    moreover have "k ?node = Some v" unfolding kk by simp
    ultimately show ?thesis by blast
  qed
next
  case (9 sem t y known i j)
  let ?node = "StateVector i j"
  show ?case
  proof (cases "known ?node")
    case (Some w)
    with "9.prems" show ?thesis by simp
  next
    case None
    with "9.prems" have kk: "k = known(?node \<mapsto> v)" by (simp add: store_Inr)
    have "known \<subseteq>\<^sub>m k" unfolding kk using map_le_refl None by (rule map_le_fresh)
    moreover have "k ?node = Some v" unfolding kk by simp
    ultimately show ?thesis by blast
  qed
next
  case (10 sem t y known x)
  let ?node = "Scalar x"
  show ?case
  proof (cases "known ?node")
    case (Some w)
    with "10.prems" show ?thesis by simp
  next
    case None
    with "10.prems" have kk: "k = known(?node \<mapsto> v)" by (simp add: store_Inr)
    have "known \<subseteq>\<^sub>m k" unfolding kk using map_le_refl None by (rule map_le_fresh)
    moreover have "k ?node = Some v" unfolding kk by simp
    ultimately show ?thesis by blast
  qed
next
  case (11 sem t y known)
  let ?node = "Time"
  show ?case
  proof (cases "known ?node")
    case (Some w)
    with "11.prems" show ?thesis by simp
  next
    case None
    with "11.prems" have kk: "k = known(?node \<mapsto> v)" by (simp add: store_Inr)
    have "known \<subseteq>\<^sub>m k" unfolding kk using map_le_refl None by (rule map_le_fresh)
    moreover have "k ?node = Some v" unfolding kk by simp
    ultimately show ?thesis by blast
  qed
next
  case (12 sem t y known)
  then show ?case by simp
next
  case (13 sem t y known c cs)
  from "13.prems" obtain v1 k1 vs1 where
    c: "evaluate_known sem t y known c = Inr (v1, k1)"
    and r: "evaluate_known_children sem t y k1 cs = Inr (vs1, k)"
    by (auto split: sum.splits)
  from "13.IH"(1) [OF c] have "known \<subseteq>\<^sub>m k1" by simp
  moreover from "13.IH"(2) [OF c refl r] have "k1 \<subseteq>\<^sub>m k" .
  ultimately show ?case by (rule map_le_trans)
qed

lemma reached_antimono:
  "dom known \<subseteq> dom k \<Longrightarrow> reached k s \<subseteq> reached known s"
proof (induction s)
  case (FunctionParameter f args)
  then show ?case by (fastforce split: if_splits)
next
  case (Concatenation cs)
  then show ?case by (fastforce split: if_splits)
qed (auto split: if_splits)

lemma reached_after:
  "evaluate_known sem t y known c = Inr (v, k) \<Longrightarrow> reached k s \<subseteq> reached known s"
proof (rule reached_antimono)
  assume "evaluate_known sem t y known c = Inr (v, k)"
  then have "known \<subseteq>\<^sub>m k" by (simp add: evaluate_known_grows)
  then show "dom known \<subseteq> dom k" by (rule map_le_implies_dom_le)
qed

lemma reached_after_children:
  "evaluate_known_children sem t y known cs = Inr (vs, k) \<Longrightarrow> reached k s \<subseteq> reached known s"
proof (rule reached_antimono)
  assume "evaluate_known_children sem t y known cs = Inr (vs, k)"
  then have "known \<subseteq>\<^sub>m k" by (rule evaluate_known_children_grows)
  then show "dom known \<subseteq> dom k" by (rule map_le_implies_dom_le)
qed


lemma evaluate_known_independent:
  "\<forall>n\<in>reached known s. sem n = sem' n \<Longrightarrow>
     evaluate_known sem t y known s = evaluate_known sem' t y known s"
  and evaluate_known_children_independent:
  "\<forall>c\<in>set cs. \<forall>n\<in>reached known c. sem n = sem' n \<Longrightarrow>
     evaluate_known_children sem t y known cs = evaluate_known_children sem' t y known cs"
proof (induction sem t y known s and sem t y known cs
    rule: evaluate_known_evaluate_known_children.induct)
  case (1 sem t y known f args)
  let ?node = "FunctionParameter f args"
  show ?case
  proof (cases "known ?node")
    case (Some w)
    then show ?thesis by simp
  next
    case None
    with "1.prems" have here: "sem ?node = sem' ?node"
      and below: "\<forall>c\<in>set args. \<forall>n\<in>reached known c. sem n = sem' n"
      by simp_all
    from "1.IH" [OF None below]
    have "evaluate_known_children sem' t y known args = evaluate_known_children sem t y known args"
      by simp
    with None here show ?thesis by (simp split: sum.splits prod.splits)
  qed
next
  case (2 sem t y known b l r)
  let ?node = "BinaryOperator b l r"
  show ?case
  proof (cases "known ?node")
    case (Some w)
    then show ?thesis by simp
  next
    case None
    with "2.prems" have here: "sem ?node = sem' ?node"
      and left: "\<forall>n\<in>reached known l. sem n = sem' n"
      and right: "\<forall>n\<in>reached known r. sem n = sem' n"
      by simp_all
    from "2.IH"(1) [OF None left]
    have el: "evaluate_known sem' t y known l = evaluate_known sem t y known l"
      by simp
    show ?thesis
    proof (cases "evaluate_known sem t y known l")
      case (Inl e)
      with None el show ?thesis by simp
    next
      case (Inr p)
      obtain vl k1 where p: "p = (vl, k1)" by (cases p)
      from Inr p have cl: "evaluate_known sem t y known l = Inr (vl, k1)" by simp
      from reached_after [OF cl] right have "\<forall>n\<in>reached k1 r. sem n = sem' n"
        by blast
      from "2.IH"(2) [OF None cl refl this]
      have "evaluate_known sem' t y k1 r = evaluate_known sem t y k1 r"
        by simp
      with None el cl here show ?thesis by (simp split: sum.splits prod.splits)
    qed
  qed
next
  case (3 sem t y known u c)
  let ?node = "UnaryOperator u c"
  show ?case
  proof (cases "known ?node")
    case (Some w)
    then show ?thesis by simp
  next
    case None
    with "3.prems" have here: "sem ?node = sem' ?node"
      and below: "\<forall>n\<in>reached known c. sem n = sem' n"
      by simp_all
    from "3.IH" [OF None below]
    have "evaluate_known sem' t y known c = evaluate_known sem t y known c"
      by simp
    with None here show ?thesis by (simp split: sum.splits prod.splits)
  qed
next
  case (4 sem t y known ka c)
  let ?node = "SpatialOperator ka c"
  show ?case
  proof (cases "known ?node")
    case (Some w)
    then show ?thesis by simp
  next
    case None
    with "4.prems" have here: "sem ?node = sem' ?node"
      and below: "\<forall>n\<in>reached known c. sem n = sem' n"
      by simp_all
    from "4.IH" [OF None below]
    have "evaluate_known sem' t y known c = evaluate_known sem t y known c"
      by simp
    with None here show ?thesis by (simp split: sum.splits prod.splits)
  qed
next
  case (5 sem t y known c d)
  let ?node = "Broadcast c d"
  show ?case
  proof (cases "known ?node")
    case (Some w)
    then show ?thesis by simp
  next
    case None
    with "5.prems" have here: "sem ?node = sem' ?node"
      and below: "\<forall>n\<in>reached known c. sem n = sem' n"
      by simp_all
    from "5.IH" [OF None below]
    have "evaluate_known sem' t y known c = evaluate_known sem t y known c"
      by simp
    with None here show ?thesis by (simp split: sum.splits prod.splits)
  qed
next
  case (6 sem t y known cs)
  let ?node = "Concatenation cs"
  show ?case
  proof (cases "known ?node")
    case (Some w)
    then show ?thesis by simp
  next
    case None
    with "6.prems" have here: "sem ?node = sem' ?node"
      and below: "\<forall>c\<in>set cs. \<forall>n\<in>reached known c. sem n = sem' n"
      by simp_all
    from "6.IH" [OF None below]
    have "evaluate_known_children sem' t y known cs = evaluate_known_children sem t y known cs"
      by simp
    with None here show ?thesis by (simp split: sum.splits prod.splits)
  qed
next
  case (7 sem t y known n)
  let ?node = "Parameter n"
  show ?case
  proof (cases "known ?node")
    case (Some w)
    then show ?thesis by simp
  next
    case None
    with "7.prems" have "sem ?node = sem' ?node" by simp
    with None show ?thesis by simp
  qed
next
  case (8 sem t y known n d a)
  let ?node = "Variable n d a"
  show ?case
  proof (cases "known ?node")
    case (Some w)
    then show ?thesis by simp
  next
    case None
    with "8.prems" have "sem ?node = sem' ?node" by simp
    with None show ?thesis by simp
  qed
next
  case (9 sem t y known i j)
  let ?node = "StateVector i j"
  show ?case
  proof (cases "known ?node")
    case (Some w)
    then show ?thesis by simp
  next
    case None
    with "9.prems" have "sem ?node = sem' ?node" by simp
    with None show ?thesis by simp
  qed
next
  case (10 sem t y known x)
  let ?node = "Scalar x"
  show ?case
  proof (cases "known ?node")
    case (Some w)
    then show ?thesis by simp
  next
    case None
    with "10.prems" have "sem ?node = sem' ?node" by simp
    with None show ?thesis by simp
  qed
next
  case (11 sem t y known)
  let ?node = "Time"
  show ?case
  proof (cases "known ?node")
    case (Some w)
    then show ?thesis by simp
  next
    case None
    with "11.prems" have "sem ?node = sem' ?node" by simp
    with None show ?thesis by simp
  qed
next
  case (12 sem t y known)
  then show ?case by simp
next
  case (13 sem t y known c cs)
  from "13.prems" have first: "\<forall>n\<in>reached known c. sem n = sem' n"
    and rest: "\<forall>c\<in>set cs. \<forall>n\<in>reached known c. sem n = sem' n"
    by simp_all
  from "13.IH"(1) [OF first]
  have ec: "evaluate_known sem' t y known c = evaluate_known sem t y known c"
    by simp
  show ?case
  proof (cases "evaluate_known sem t y known c")
    case (Inl e)
    with ec show ?thesis by simp
  next
    case (Inr p)
    obtain v k1 where p: "p = (v, k1)" by (cases p)
    from Inr p have cc: "evaluate_known sem t y known c = Inr (v, k1)" by simp
    from reached_after [OF cc] rest have "\<forall>c\<in>set cs. \<forall>n\<in>reached k1 c. sem n = sem' n"
      by blast
    from "13.IH"(2) [OF cc refl this]
    have "evaluate_known_children sem' t y k1 cs = evaluate_known_children sem t y k1 cs"
      by simp
    with ec cc show ?thesis by simp
  qed
qed

lemma subterm_closed_hit:
  "subterm_closed known \<Longrightarrow> known s = Some w \<Longrightarrow> set (pre_order s) \<subseteq> dom known"
  by (auto simp: subterm_closed_def)

lemma subterm_closed_store:
  "subterm_closed k1 \<Longrightarrow> set (pre_order s) \<subseteq> insert s (dom k1) \<Longrightarrow>
   subterm_closed (k1(s \<mapsto> v))"
  by (auto simp: subterm_closed_def)

lemma evaluate_known_closed:
  "subterm_closed known \<Longrightarrow> evaluate_known sem t y known s = Inr (v, k) \<Longrightarrow>
     dom k = dom known \<union> set (pre_order s) \<and> subterm_closed k"
  and evaluate_known_children_closed:
  "subterm_closed known \<Longrightarrow> evaluate_known_children sem t y known cs = Inr (vs, k) \<Longrightarrow>
     dom k = dom known \<union> (\<Union>c\<in>set cs. set (pre_order c)) \<and> subterm_closed k"
proof (induction sem t y known s and sem t y known cs arbitrary: v k and vs k
    rule: evaluate_known_evaluate_known_children.induct)
  case (1 sem t y known f args)
  let ?node = "FunctionParameter f args"
  show ?case
  proof (cases "known ?node")
    case (Some w)
    with "1.prems" have kk: "k = known" by simp
    from subterm_closed_hit [OF "1.prems"(1) Some]
    have "dom known = dom known \<union> set (pre_order ?node)" by blast
    with "1.prems"(1) show ?thesis unfolding kk by blast
  next
    case None
    from "1.prems" None obtain v1 k1 where
      c: "evaluate_known_children sem t y known args = Inr (v1, k1)"
      and s: "store ?node k1 (sem ?node t y v1) = Inr (v, k)"
      by (auto split: sum.splits)
    from "1.IH" [OF None "1.prems"(1) c]
    have d1: "dom k1 = dom known \<union> (\<Union>c\<in>set args. set (pre_order c))" and c1: "subterm_closed k1"
      by simp_all
    from s have kk: "k = k1(?node \<mapsto> v)" by (simp add: store_Inr)
    have sub: "set (pre_order ?node) \<subseteq> insert ?node (dom k1)"
      unfolding d1 by auto
    have "dom k = dom known \<union> set (pre_order ?node)"
      unfolding kk using d1 by auto
    moreover have "subterm_closed k"
      unfolding kk using c1 sub by (rule subterm_closed_store)
    ultimately show ?thesis by blast
  qed
next
  case (2 sem t y known b l r)
  let ?node = "BinaryOperator b l r"
  show ?case
  proof (cases "known ?node")
    case (Some w)
    with "2.prems" have kk: "k = known" by simp
    from subterm_closed_hit [OF "2.prems"(1) Some]
    have "dom known = dom known \<union> set (pre_order ?node)" by blast
    with "2.prems"(1) show ?thesis unfolding kk by blast
  next
    case None
    from "2.prems" None obtain vl k1 vr k2 where
      cl: "evaluate_known sem t y known l = Inr (vl, k1)"
      and cr: "evaluate_known sem t y k1 r = Inr (vr, k2)"
      and s: "store ?node k2 (sem ?node t y [vl, vr]) = Inr (v, k)"
      by (auto split: sum.splits)
    from "2.IH"(1) [OF None "2.prems"(1) cl]
    have d1: "dom k1 = dom known \<union> set (pre_order l)" and c1: "subterm_closed k1"
      by simp_all
    from "2.IH"(2) [OF None cl refl c1 cr]
    have d2: "dom k2 = dom k1 \<union> set (pre_order r)" and c2: "subterm_closed k2"
      by simp_all
    from s have kk: "k = k2(?node \<mapsto> v)" by (simp add: store_Inr)
    have sub: "set (pre_order ?node) \<subseteq> insert ?node (dom k2)"
      unfolding d2 d1 by auto
    have "dom k = dom known \<union> set (pre_order ?node)"
      unfolding kk using d1 d2 by auto
    moreover have "subterm_closed k"
      unfolding kk using c2 sub by (rule subterm_closed_store)
    ultimately show ?thesis by blast
  qed
next
  case (3 sem t y known u c)
  let ?node = "UnaryOperator u c"
  show ?case
  proof (cases "known ?node")
    case (Some w)
    with "3.prems" have kk: "k = known" by simp
    from subterm_closed_hit [OF "3.prems"(1) Some]
    have "dom known = dom known \<union> set (pre_order ?node)" by blast
    with "3.prems"(1) show ?thesis unfolding kk by blast
  next
    case None
    from "3.prems" None obtain v1 k1 where
      c: "evaluate_known sem t y known c = Inr (v1, k1)"
      and s: "store ?node k1 (sem ?node t y [v1]) = Inr (v, k)"
      by (auto split: sum.splits)
    from "3.IH" [OF None "3.prems"(1) c]
    have d1: "dom k1 = dom known \<union> set (pre_order c)" and c1: "subterm_closed k1"
      by simp_all
    from s have kk: "k = k1(?node \<mapsto> v)" by (simp add: store_Inr)
    have sub: "set (pre_order ?node) \<subseteq> insert ?node (dom k1)"
      unfolding d1 by auto
    have "dom k = dom known \<union> set (pre_order ?node)"
      unfolding kk using d1 by auto
    moreover have "subterm_closed k"
      unfolding kk using c1 sub by (rule subterm_closed_store)
    ultimately show ?thesis by blast
  qed
next
  case (4 sem t y known ka c)
  let ?node = "SpatialOperator ka c"
  show ?case
  proof (cases "known ?node")
    case (Some w)
    with "4.prems" have kk: "k = known" by simp
    from subterm_closed_hit [OF "4.prems"(1) Some]
    have "dom known = dom known \<union> set (pre_order ?node)" by blast
    with "4.prems"(1) show ?thesis unfolding kk by blast
  next
    case None
    from "4.prems" None obtain v1 k1 where
      c: "evaluate_known sem t y known c = Inr (v1, k1)"
      and s: "store ?node k1 (sem ?node t y [v1]) = Inr (v, k)"
      by (auto split: sum.splits)
    from "4.IH" [OF None "4.prems"(1) c]
    have d1: "dom k1 = dom known \<union> set (pre_order c)" and c1: "subterm_closed k1"
      by simp_all
    from s have kk: "k = k1(?node \<mapsto> v)" by (simp add: store_Inr)
    have sub: "set (pre_order ?node) \<subseteq> insert ?node (dom k1)"
      unfolding d1 by auto
    have "dom k = dom known \<union> set (pre_order ?node)"
      unfolding kk using d1 by auto
    moreover have "subterm_closed k"
      unfolding kk using c1 sub by (rule subterm_closed_store)
    ultimately show ?thesis by blast
  qed
next
  case (5 sem t y known c d)
  let ?node = "Broadcast c d"
  show ?case
  proof (cases "known ?node")
    case (Some w)
    with "5.prems" have kk: "k = known" by simp
    from subterm_closed_hit [OF "5.prems"(1) Some]
    have "dom known = dom known \<union> set (pre_order ?node)" by blast
    with "5.prems"(1) show ?thesis unfolding kk by blast
  next
    case None
    from "5.prems" None obtain v1 k1 where
      c: "evaluate_known sem t y known c = Inr (v1, k1)"
      and s: "store ?node k1 (sem ?node t y [v1]) = Inr (v, k)"
      by (auto split: sum.splits)
    from "5.IH" [OF None "5.prems"(1) c]
    have d1: "dom k1 = dom known \<union> set (pre_order c)" and c1: "subterm_closed k1"
      by simp_all
    from s have kk: "k = k1(?node \<mapsto> v)" by (simp add: store_Inr)
    have sub: "set (pre_order ?node) \<subseteq> insert ?node (dom k1)"
      unfolding d1 by auto
    have "dom k = dom known \<union> set (pre_order ?node)"
      unfolding kk using d1 by auto
    moreover have "subterm_closed k"
      unfolding kk using c1 sub by (rule subterm_closed_store)
    ultimately show ?thesis by blast
  qed
next
  case (6 sem t y known cs)
  let ?node = "Concatenation cs"
  show ?case
  proof (cases "known ?node")
    case (Some w)
    with "6.prems" have kk: "k = known" by simp
    from subterm_closed_hit [OF "6.prems"(1) Some]
    have "dom known = dom known \<union> set (pre_order ?node)" by blast
    with "6.prems"(1) show ?thesis unfolding kk by blast
  next
    case None
    from "6.prems" None obtain v1 k1 where
      c: "evaluate_known_children sem t y known cs = Inr (v1, k1)"
      and s: "store ?node k1 (sem ?node t y v1) = Inr (v, k)"
      by (auto split: sum.splits)
    from "6.IH" [OF None "6.prems"(1) c]
    have d1: "dom k1 = dom known \<union> (\<Union>c\<in>set cs. set (pre_order c))" and c1: "subterm_closed k1"
      by simp_all
    from s have kk: "k = k1(?node \<mapsto> v)" by (simp add: store_Inr)
    have sub: "set (pre_order ?node) \<subseteq> insert ?node (dom k1)"
      unfolding d1 by auto
    have "dom k = dom known \<union> set (pre_order ?node)"
      unfolding kk using d1 by auto
    moreover have "subterm_closed k"
      unfolding kk using c1 sub by (rule subterm_closed_store)
    ultimately show ?thesis by blast
  qed
next
  case (7 sem t y known n)
  let ?node = "Parameter n"
  show ?case
  proof (cases "known ?node")
    case (Some w)
    with "7.prems" have kk: "k = known" by simp
    from subterm_closed_hit [OF "7.prems"(1) Some]
    have "dom known = dom known \<union> set (pre_order ?node)" by blast
    with "7.prems"(1) show ?thesis unfolding kk by blast
  next
    case None
    with "7.prems" have kk: "k = known(?node \<mapsto> v)" by (simp add: store_Inr)
    have sub: "set (pre_order ?node) \<subseteq> insert ?node (dom known)"
      by simp
    have "dom k = dom known \<union> set (pre_order ?node)"
      unfolding kk by auto
    moreover have "subterm_closed k"
      unfolding kk using "7.prems"(1) sub by (rule subterm_closed_store)
    ultimately show ?thesis by blast
  qed
next
  case (8 sem t y known n d a)
  let ?node = "Variable n d a"
  show ?case
  proof (cases "known ?node")
    case (Some w)
    with "8.prems" have kk: "k = known" by simp
    from subterm_closed_hit [OF "8.prems"(1) Some]
    have "dom known = dom known \<union> set (pre_order ?node)" by blast
    with "8.prems"(1) show ?thesis unfolding kk by blast
  next
    case None
    with "8.prems" have kk: "k = known(?node \<mapsto> v)" by (simp add: store_Inr)
    have sub: "set (pre_order ?node) \<subseteq> insert ?node (dom known)"
      by simp
    have "dom k = dom known \<union> set (pre_order ?node)"
      unfolding kk by auto
    moreover have "subterm_closed k"
      unfolding kk using "8.prems"(1) sub by (rule subterm_closed_store)
    ultimately show ?thesis by blast
  qed
next
  case (9 sem t y known i j)
  let ?node = "StateVector i j"
  show ?case
  proof (cases "known ?node")
    case (Some w)
    with "9.prems" have kk: "k = known" by simp
    from subterm_closed_hit [OF "9.prems"(1) Some]
    have "dom known = dom known \<union> set (pre_order ?node)" by blast
    with "9.prems"(1) show ?thesis unfolding kk by blast
  next
    case None
    with "9.prems" have kk: "k = known(?node \<mapsto> v)" by (simp add: store_Inr)
    have sub: "set (pre_order ?node) \<subseteq> insert ?node (dom known)"
      by simp
    have "dom k = dom known \<union> set (pre_order ?node)"
      unfolding kk by auto
    moreover have "subterm_closed k"
      unfolding kk using "9.prems"(1) sub by (rule subterm_closed_store)
    ultimately show ?thesis by blast
  qed
next
  case (10 sem t y known x)
  let ?node = "Scalar x"
  show ?case
  proof (cases "known ?node")
    case (Some w)
    with "10.prems" have kk: "k = known" by simp
    from subterm_closed_hit [OF "10.prems"(1) Some]
    have "dom known = dom known \<union> set (pre_order ?node)" by blast
    with "10.prems"(1) show ?thesis unfolding kk by blast
  next
    case None
    with "10.prems" have kk: "k = known(?node \<mapsto> v)" by (simp add: store_Inr)
    have sub: "set (pre_order ?node) \<subseteq> insert ?node (dom known)"
      by simp
    have "dom k = dom known \<union> set (pre_order ?node)"
      unfolding kk by auto
    moreover have "subterm_closed k"
      unfolding kk using "10.prems"(1) sub by (rule subterm_closed_store)
    ultimately show ?thesis by blast
  qed
next
  case (11 sem t y known)
  let ?node = "Time"
  show ?case
  proof (cases "known ?node")
    case (Some w)
    with "11.prems" have kk: "k = known" by simp
    from subterm_closed_hit [OF "11.prems"(1) Some]
    have "dom known = dom known \<union> set (pre_order ?node)" by blast
    with "11.prems"(1) show ?thesis unfolding kk by blast
  next
    case None
    with "11.prems" have kk: "k = known(?node \<mapsto> v)" by (simp add: store_Inr)
    have sub: "set (pre_order ?node) \<subseteq> insert ?node (dom known)"
      by simp
    have "dom k = dom known \<union> set (pre_order ?node)"
      unfolding kk by auto
    moreover have "subterm_closed k"
      unfolding kk using "11.prems"(1) sub by (rule subterm_closed_store)
    ultimately show ?thesis by blast
  qed
next
  case (12 sem t y known)
  then show ?case by simp
next
  case (13 sem t y known c cs)
  from "13.prems" obtain v1 k1 vs1 where
    c: "evaluate_known sem t y known c = Inr (v1, k1)"
    and r: "evaluate_known_children sem t y k1 cs = Inr (vs1, k)"
    by (auto split: sum.splits)
  from "13.IH"(1) [OF "13.prems"(1) c]
  have d1: "dom k1 = dom known \<union> set (pre_order c)" and c1: "subterm_closed k1"
    by simp_all
  from "13.IH"(2) [OF c refl c1 r]
  have d2: "dom k = dom k1 \<union> (\<Union>c\<in>set cs. set (pre_order c))" and c2: "subterm_closed k"
    by simp_all
  from d1 d2 have "dom k = dom known \<union> (\<Union>c\<in>set (c # cs). set (pre_order c))"
    by auto
  with c2 show ?case by blast
qed

lemma reached_uncached: "n \<in> reached known s \<Longrightarrow> known n = None"
proof (induction s)
  case (FunctionParameter f args)
  then show ?case by (fastforce split: if_splits)
next
  case (Concatenation cs)
  then show ?case by (fastforce split: if_splits)
qed (auto split: if_splits)

lemma subterm_closed_empty: "subterm_closed Map.empty"
  by (simp add: subterm_closed_def)

text \<open>
  C7. Evaluation with a cache returns the value that evaluation without one returns: the
  value component of \<open>evaluate(eqn, t, y, known_evals={})\<close> is \<open>evaluate(eqn, t, y)\<close>, an
  exception included, and the same holds from any consistent cache. A cached subtree is
  not evaluated again, wherever it stands in the tree: a hit returns the cached value with
  the cache unchanged, no cached node is reached, and the result does not change when the
  operator semantics is replaced by one that agrees with it on the reached nodes only, so
  the semantics of a node at or below a cached node is never consulted there. What is
  evaluated is stored: the returned cache extends the given one, stays consistent, holds
  the value of the node, and from a cache closed under subtrees (the empty one is) it
  holds exactly the old entries and every node of the tree.
\<close>

theorem known_evals_same_value:
  "value_of (evaluate_known sem t y Map.empty eqn) = evaluate sem t y eqn
   \<and> (consistent sem t y known \<longrightarrow>
        value_of (evaluate_known sem t y known eqn) = evaluate sem t y eqn)
   \<and> (known eqn = Some v \<longrightarrow> evaluate_known sem t y known eqn = Inr (v, known))
   \<and> (\<forall>n\<in>reached known eqn. known n = None)
   \<and> ((\<forall>n\<in>reached known eqn. sem n = sem' n) \<longrightarrow>
        evaluate_known sem t y known eqn = evaluate_known sem' t y known eqn)
   \<and> (evaluate_known sem t y known eqn = Inr (w, k) \<longrightarrow>
        known \<subseteq>\<^sub>m k \<and> k eqn = Some w
        \<and> (consistent sem t y known \<longrightarrow> consistent sem t y k)
        \<and> (subterm_closed known \<longrightarrow>
             dom k = dom known \<union> set (pre_order eqn) \<and> subterm_closed k))"
proof (intro conjI impI ballI)
  show "value_of (evaluate_known sem t y Map.empty eqn) = evaluate sem t y eqn"
    by (rule value_of_sound [OF evaluate_known_sound [OF consistent_empty]])
next
  assume "consistent sem t y known"
  then show "value_of (evaluate_known sem t y known eqn) = evaluate sem t y eqn"
    by (rule value_of_sound [OF evaluate_known_sound])
next
  assume "known eqn = Some v"
  then show "evaluate_known sem t y known eqn = Inr (v, known)"
    by (rule evaluate_known_hit)
next
  fix n
  assume "n \<in> reached known eqn"
  then show "known n = None"
    by (rule reached_uncached)
next
  assume "\<forall>n\<in>reached known eqn. sem n = sem' n"
  then show "evaluate_known sem t y known eqn = evaluate_known sem' t y known eqn"
    by (rule evaluate_known_independent)
next
  assume r: "evaluate_known sem t y known eqn = Inr (w, k)"
  from evaluate_known_grows [OF r] show "known \<subseteq>\<^sub>m k" and "k eqn = Some w"
    by simp_all
  {
    assume "consistent sem t y known"
    from evaluate_known_sound [OF this, of eqn] r show "consistent sem t y k"
      by (simp add: sound_Inr)
  }
  {
    assume c: "subterm_closed known"
    from evaluate_known_closed [OF c r]
    show "dom k = dom known \<union> set (pre_order eqn)" and "subterm_closed k"
      by simp_all
  }
qed

theorem known_evals_same_value_witness:
  "value_of (evaluate_known scalar_semantics 2 [3] Map.empty
       (BinaryOperator Addition (StateVector 0 1)
          (BinaryOperator Multiplication (StateVector 0 1) Time))) = Inr [9]
   \<and> evaluate_known scalar_semantics 2 [3] [StateVector 0 1 \<mapsto> [5]] (StateVector 0 1) =
       Inr ([5], [StateVector 0 1 \<mapsto> [5]])
   \<and> value_of (evaluate_known scalar_semantics 2 [3] [StateVector 0 1 \<mapsto> [5]]
       (BinaryOperator Addition (StateVector 0 1) Time)) = Inr [7]
   \<and> evaluate_known raising_on_state_vector 2 [3] [StateVector 0 1 \<mapsto> [5]]
       (BinaryOperator Addition (StateVector 0 1) Time) =
      evaluate_known scalar_semantics 2 [3] [StateVector 0 1 \<mapsto> [5]]
       (BinaryOperator Addition (StateVector 0 1) Time)
   \<and> evaluate raising_on_state_vector 2 [3] (BinaryOperator Addition (StateVector 0 1) Time) =
      Inl (ValueError ''state vector evaluated'')
   \<and> dom (Map.empty(StateVector 0 1 \<mapsto> [3], Time \<mapsto> [2],
        BinaryOperator Addition (StateVector 0 1) Time \<mapsto> [5])) =
      set (pre_order (BinaryOperator Addition (StateVector 0 1) Time))"
proof -
  let ?sv = "StateVector 0 1"
  let ?eqn = "BinaryOperator Addition ?sv (BinaryOperator Multiplication ?sv Time)"
  let ?sum = "BinaryOperator Addition ?sv Time"
  let ?known = "[?sv \<mapsto> [5::real]]"
  have plain: "evaluate scalar_semantics 2 [3] ?eqn = Inr [9]"
    by (simp add: scalar_semantics_def)
  from known_evals_same_value [of scalar_semantics 2 "[3]" ?eqn, THEN conjunct1] plain
  have one: "value_of (evaluate_known scalar_semantics 2 [3] Map.empty ?eqn) = Inr [9]"
    by simp
  have cached: "?known ?sv = Some [5]"
    by simp
  from known_evals_same_value [of scalar_semantics 2 "[3]" ?sv ?known "[5]",
      THEN conjunct2, THEN conjunct2, THEN conjunct1, THEN mp, OF cached]
  have two: "evaluate_known scalar_semantics 2 [3] ?known ?sv = Inr ([5], ?known)" .
  have three: "value_of (evaluate_known scalar_semantics 2 [3] ?known ?sum) = Inr [7]"
    by (simp add: scalar_semantics_def store_def value_of_def)
  have agree: "\<forall>n\<in>reached ?known ?sum. raising_on_state_vector n = scalar_semantics n"
    by (simp add: raising_on_state_vector_def fun_eq_iff)
  from known_evals_same_value [of raising_on_state_vector 2 "[3]" ?sum ?known _ scalar_semantics,
      THEN conjunct2, THEN conjunct2, THEN conjunct2, THEN conjunct2, THEN conjunct1,
      THEN mp, OF agree]
  have four: "evaluate_known raising_on_state_vector 2 [3] ?known ?sum =
      evaluate_known scalar_semantics 2 [3] ?known ?sum" .
  have five: "evaluate raising_on_state_vector 2 [3] ?sum =
      Inl (ValueError ''state vector evaluated'')"
    by (simp add: raising_on_state_vector_def)
  have run: "evaluate_known scalar_semantics 2 [3] Map.empty ?sum =
      Inr ([5], Map.empty(?sv \<mapsto> [3], Time \<mapsto> [2], ?sum \<mapsto> [5]))"
    by (simp add: scalar_semantics_def store_def)
  from known_evals_same_value [of scalar_semantics 2 "[3]" ?sum Map.empty _ _ "[5]"
      "Map.empty(?sv \<mapsto> [3], Time \<mapsto> [2], ?sum \<mapsto> [5])",
      THEN conjunct2, THEN conjunct2, THEN conjunct2, THEN conjunct2, THEN conjunct2,
      THEN mp, OF run] subterm_closed_empty
  have six: "dom (Map.empty(?sv \<mapsto> [3], Time \<mapsto> [2], ?sum \<mapsto> [5])) =
      set (pre_order ?sum)"
    by simp
  from one two three four five six show ?thesis
    by blast
qed

end
